theory Spec2Isabelle
  imports Complex_Main "HOL-Library.Sublist" "HOL-Library.List_Lexorder" "HOL-Library.Multiset"
begin

section \<open>Python values\<close>

text \<open>
  A Python \<^verbatim>\<open>str\<close> is a sequence of Unicode code points; \<open>ustr\<close> turns an ASCII
  literal into one. Substring tests (\<^verbatim>\<open>a in b\<close>) are \<^const>\<open>sublist\<close>, and the order on
  strings is the lexicographic order on lists (code point by code point).
\<close>

type_synonym pystr = "nat list"

definition ustr :: "string \<Rightarrow> pystr" where
  "ustr s = map of_char s"

text \<open>
  A Python \<^verbatim>\<open>float\<close> is an IEEE double: a real number, an infinity or a NaN. The
  type below holds every double (the two zeros identified, as \<^verbatim>\<open>==\<close> does); no
  arithmetic on floats is modelled, and the conversions that round
  (\<^verbatim>\<open>float(str)\<close>, \<^verbatim>\<open>float(int)\<close>) are parameters, see \<open>builtins\<close>.
\<close>

datatype pyfloat = PyFloat real | PosInf | NegInf | NaN

text \<open>What \<^verbatim>\<open>json.loads\<close> returns; \<open>JNull\<close> is also Python's \<^verbatim>\<open>None\<close>. A \<open>JObj\<close>
  lists the entries of a \<^verbatim>\<open>dict\<close> in iteration order.\<close>

datatype json =
    JNull
  | JBool bool
  | JInt int
  | JFloat pyfloat
  | JStr pystr
  | JList "json list"
  | JObj "(pystr \<times> json) list"

datatype py_error = AttributeError | TypeError | ValueError | OverflowError | OSError

definition pbind :: "py_error + 'a \<Rightarrow> ('a \<Rightarrow> py_error + 'b) \<Rightarrow> py_error + 'b" where
  "pbind m f = (case m of Inl e \<Rightarrow> Inl e | Inr x \<Rightarrow> f x)"

text \<open>Evaluates \<open>f\<close> on the elements from left to right; the first exception wins.\<close>

fun map_err :: "('a \<Rightarrow> py_error + 'b) \<Rightarrow> 'a list \<Rightarrow> py_error + 'b list" where
  "map_err f [] = Inr []"
| "map_err f (x # xs) =
     (case f x of
        Inl e \<Rightarrow> Inl e
      | Inr y \<Rightarrow> (case map_err f xs of Inl e \<Rightarrow> Inl e | Inr ys \<Rightarrow> Inr (y # ys)))"

text \<open>Truth value testing (\<^verbatim>\<open>if x\<close>, \<^verbatim>\<open>not x\<close>, \<^verbatim>\<open>x or y\<close>).\<close>

fun truthy :: "json \<Rightarrow> bool" where
  "truthy JNull = False"
| "truthy (JBool b) = b"
| "truthy (JInt n) = (n \<noteq> 0)"
| "truthy (JFloat f) = (f \<noteq> PyFloat 0)"
| "truthy (JStr s) = (s \<noteq> [])"
| "truthy (JList xs) = (xs \<noteq> [])"
| "truthy (JObj kvs) = (kvs \<noteq> [])"

definition py_or :: "json \<Rightarrow> json \<Rightarrow> json" where
  "py_or x d = (if truthy x then x else d)"

text \<open>\<^verbatim>\<open>d.get(k, dflt)\<close>; only a \<^verbatim>\<open>dict\<close> has the method.\<close>

definition dict_get :: "json \<Rightarrow> pystr \<Rightarrow> json \<Rightarrow> py_error + json" where
  "dict_get d k dflt =
     (case d of
        JObj kvs \<Rightarrow> Inr (case map_of kvs k of None \<Rightarrow> dflt | Some v \<Rightarrow> v)
      | _ \<Rightarrow> Inl AttributeError)"

text \<open>Iterating a value (\<^verbatim>\<open>for x in v\<close>, \<^verbatim>\<open>sorted(v)\<close>, \<^verbatim>\<open>set(v)\<close>, \<^verbatim>\<open>" ".join(v)\<close>): a list
  gives its elements, a string its characters, a dict its keys; nothing else is iterable.\<close>

definition py_iter :: "json \<Rightarrow> py_error + json list" where
  "py_iter v =
     (case v of
        JList xs \<Rightarrow> Inr xs
      | JStr s \<Rightarrow> Inr (map (\<lambda>c. JStr [c]) s)
      | JObj kvs \<Rightarrow> Inr (map (\<lambda>kv. JStr (fst kv)) kvs)
      | _ \<Rightarrow> Inl TypeError)"

text \<open>
  The built-in conversions of CPython that depend on Unicode tables or on rounding are
  parameters of the model: every theorem below holds for whatever they compute.
  \<open>int_of_str\<close> is \<^verbatim>\<open>int(s)\<close>, \<open>float_of_str\<close> is \<^verbatim>\<open>float(s)\<close>, \<open>float_of_int\<close> is
  \<^verbatim>\<open>float(n)\<close>, \<open>is_space\<close> is \<^verbatim>\<open>str.isspace\<close> on one character (the class \<^verbatim>\<open>\s\<close> of
  \<^verbatim>\<open>re\<close>, and what \<^verbatim>\<open>str.strip\<close> removes), \<open>str_lower\<close> is \<^verbatim>\<open>str.lower\<close>, \<open>str_of\<close> is
  \<^verbatim>\<open>str(v)\<close> on a value that is not a string, and \<open>path_str\<close> is \<^verbatim>\<open>str(Path(p))\<close>.
  \<open>set_other\<close> and \<open>sorted_other\<close> are \<^verbatim>\<open>set(xs)\<close> (its elements, in iteration order) and
  \<^verbatim>\<open>sorted(xs)\<close> on a list of hashable values that are not all strings: they depend on
  hashing and on the comparison of numbers with NaN.
\<close>

record builtins =
  int_of_str :: "pystr \<Rightarrow> py_error + int"
  float_of_str :: "pystr \<Rightarrow> py_error + pyfloat"
  float_of_int :: "int \<Rightarrow> py_error + pyfloat"
  is_space :: "nat \<Rightarrow> bool"
  str_lower :: "pystr \<Rightarrow> pystr"
  str_of :: "json \<Rightarrow> pystr"
  path_str :: "pystr \<Rightarrow> pystr"
  set_other :: "json list \<Rightarrow> json list"
  sorted_other :: "json list \<Rightarrow> py_error + json list"

text \<open>\<^verbatim>\<open>int(x)\<close> on a float truncates towards zero.\<close>

definition int_of_pyfloat :: "pyfloat \<Rightarrow> py_error + int" where
  "int_of_pyfloat f =
     (case f of
        PyFloat r \<Rightarrow> Inr (if 0 \<le> r then \<lfloor>r\<rfloor> else \<lceil>r\<rceil>)
      | NaN \<Rightarrow> Inl ValueError
      | _ \<Rightarrow> Inl OverflowError)"

fun py_int :: "builtins \<Rightarrow> json \<Rightarrow> py_error + int" where
  "py_int B (JBool b) = Inr (if b then 1 else 0)"
| "py_int B (JInt n) = Inr n"
| "py_int B (JFloat f) = int_of_pyfloat f"
| "py_int B (JStr s) = int_of_str B s"
| "py_int B _ = Inl TypeError"

fun py_float :: "builtins \<Rightarrow> json \<Rightarrow> py_error + pyfloat" where
  "py_float B (JBool b) = Inr (PyFloat (if b then 1 else 0))"
| "py_float B (JInt n) = float_of_int B n"
| "py_float B (JFloat f) = Inr f"
| "py_float B (JStr s) = float_of_str B s"
| "py_float B _ = Inl TypeError"

text \<open>\<^verbatim>\<open>x >= 0\<close> on a float.\<close>

fun float_ge0 :: "pyfloat \<Rightarrow> bool" where
  "float_ge0 (PyFloat r) = (0 \<le> r)"
| "float_ge0 PosInf = True"
| "float_ge0 NegInf = False"
| "float_ge0 NaN = False"

text \<open>\<^verbatim>\<open>s.strip()\<close>.\<close>

definition strip :: "builtins \<Rightarrow> pystr \<Rightarrow> pystr" where
  "strip B s = rev (dropWhile (is_space B) (rev (dropWhile (is_space B) s)))"

text \<open>\<^verbatim>\<open>str(v)\<close>.\<close>

definition py_str :: "builtins \<Rightarrow> json \<Rightarrow> pystr" where
  "py_str B v = (case v of JStr s \<Rightarrow> s | _ \<Rightarrow> str_of B v)"

text \<open>\<^verbatim>\<open>sep.join(xs)\<close> on a list of strings, and the check that every item is one.\<close>

fun py_join :: "pystr \<Rightarrow> pystr list \<Rightarrow> pystr" where
  "py_join sep [] = []"
| "py_join sep [x] = x"
| "py_join sep (x # y # ys) = x @ sep @ py_join sep (y # ys)"

definition str_items :: "json list \<Rightarrow> py_error + pystr list" where
  "str_items xs = map_err (\<lambda>v. case v of JStr s \<Rightarrow> Inr s | _ \<Rightarrow> Inl TypeError) xs"

text \<open>\<^verbatim>\<open>d.keys()\<close>.\<close>

definition dict_keys :: "json \<Rightarrow> py_error + pystr list" where
  "dict_keys d = (case d of JObj kvs \<Rightarrow> Inr (map fst kvs) | _ \<Rightarrow> Inl AttributeError)"

fun is_str :: "json \<Rightarrow> bool" where
  "is_str (JStr s) = True"
| "is_str _ = False"

fun the_str :: "json \<Rightarrow> pystr" where
  "the_str (JStr s) = s"
| "the_str _ = []"

fun hashable :: "json \<Rightarrow> bool" where
  "hashable (JList xs) = False"
| "hashable (JObj kvs) = False"
| "hashable _ = True"

text \<open>\<^verbatim>\<open>set(v)\<close>, as the list of its elements in some iteration order, and \<^verbatim>\<open>sorted(xs)\<close>.
  The order in which a set of strings is iterated does not show after \<^verbatim>\<open>sorted\<close>.\<close>

definition py_set :: "builtins \<Rightarrow> json \<Rightarrow> py_error + json list" where
  "py_set B v =
     pbind (py_iter v) (\<lambda>xs.
       if \<not> list_all hashable xs then Inl TypeError
       else if list_all is_str xs then Inr (remdups xs)
       else Inr (set_other B xs))"

definition py_sorted :: "builtins \<Rightarrow> json list \<Rightarrow> py_error + json list" where
  "py_sorted B xs =
     (if list_all is_str xs then Inr (map JStr (sort (map the_str xs)))
      else sorted_other B xs)"

subsection \<open>A reference interpretation of the built-ins\<close>

text \<open>
  The concrete examples are evaluated with \<open>cpy\<close>, which follows CPython on the inputs
  they use: decimal literals of ASCII digits (sign, single underscores between digits,
  fraction and exponent for floats, \<^verbatim>\<open>inf\<close> and \<^verbatim>\<open>nan\<close>) read exactly, ASCII letters
  lower-cased, the white space of \<^verbatim>\<open>str.isspace\<close>, \<^verbatim>\<open>str\<close> of \<^verbatim>\<open>None\<close>, booleans and
  integers, paths already in normal form, and sets and sorted lists of integers. Rounding
  to a double, other scripts' digits and case mappings, the text of floats, lists and
  dicts, and sets or sorted lists mixing kinds of values are not part of it.
\<close>

definition cpy_is_space :: "nat \<Rightarrow> bool" where
  "cpy_is_space c =
     ((9 \<le> c \<and> c \<le> 13) \<or> (28 \<le> c \<and> c \<le> 32) \<or> c = 133 \<or> c = 160 \<or> c = 5760
      \<or> (8192 \<le> c \<and> c \<le> 8202) \<or> c = 8232 \<or> c = 8233 \<or> c = 8239 \<or> c = 8287
      \<or> c = 12288)"

definition is_digit :: "nat \<Rightarrow> bool" where
  "is_digit c = (48 \<le> c \<and> c \<le> 57)"

text \<open>Reads digits, and single underscores between digits, from the front:
  the value, the number of digits and the rest.\<close>

fun digit_group :: "pystr \<Rightarrow> nat \<Rightarrow> nat \<Rightarrow> nat \<times> nat \<times> pystr" where
  "digit_group [] v k = (v, k, [])"
| "digit_group (c # cs) v k =
     (if is_digit c then digit_group cs (10 * v + (c - 48)) (Suc k)
      else if c = 95 \<and> 0 < k \<and> cs \<noteq> [] \<and> is_digit (hd cs) then digit_group cs v k
      else (v, k, c # cs))"

definition split_sign :: "pystr \<Rightarrow> bool \<times> pystr" where
  "split_sign s =
     (case s of
        [] \<Rightarrow> (False, [])
      | c # cs \<Rightarrow> if c = 45 then (True, cs) else if c = 43 then (False, cs) else (False, s))"

definition cpy_strip :: "pystr \<Rightarrow> pystr" where
  "cpy_strip s = rev (dropWhile cpy_is_space (rev (dropWhile cpy_is_space s)))"

definition cpy_int_of_str :: "pystr \<Rightarrow> py_error + int" where
  "cpy_int_of_str s =
     (case split_sign (cpy_strip s) of (neg, body) \<Rightarrow>
        (case digit_group body 0 0 of (v, k, rest) \<Rightarrow>
           if 0 < k \<and> rest = [] then Inr (if neg then - int v else int v)
           else Inl ValueError))"

definition cpy_lower :: "pystr \<Rightarrow> pystr" where
  "cpy_lower s = map (\<lambda>c. if 65 \<le> c \<and> c \<le> 90 then c + 32 else c) s"

definition cpy_exponent :: "pystr \<Rightarrow> int option" where
  "cpy_exponent s =
     (case s of
        [] \<Rightarrow> Some 0
      | c # cs \<Rightarrow>
          if c = 101 \<or> c = 69 then
            (case split_sign cs of (neg, body) \<Rightarrow>
               (case digit_group body 0 0 of (v, k, rest) \<Rightarrow>
                  if 0 < k \<and> rest = [] then Some (if neg then - int v else int v)
                  else None))
          else None)"

definition cpy_decimal :: "pystr \<Rightarrow> real option" where
  "cpy_decimal s =
     (case digit_group s 0 0 of (i, ki, r1) \<Rightarrow>
        (case (if r1 \<noteq> [] \<and> hd r1 = 46 then digit_group (tl r1) 0 0 else (0, 0, r1)) of
           (f, kf, r2) \<Rightarrow>
             if ki + kf = 0 then None
             else (case cpy_exponent r2 of
                     None \<Rightarrow> None
                   | Some x \<Rightarrow>
                       Some ((real i + real f / 10 ^ kf)
                             * (if 0 \<le> x then 10 ^ nat x else 1 / 10 ^ nat (- x))))))"

definition cpy_float_of_str :: "pystr \<Rightarrow> py_error + pyfloat" where
  "cpy_float_of_str s =
     (case split_sign (cpy_strip s) of (neg, body) \<Rightarrow>
        if cpy_lower body = ustr ''inf'' \<or> cpy_lower body = ustr ''infinity''
        then Inr (if neg then NegInf else PosInf)
        else if cpy_lower body = ustr ''nan'' then Inr NaN
        else (case cpy_decimal body of
                None \<Rightarrow> Inl ValueError
              | Some r \<Rightarrow> Inr (PyFloat (if neg then - r else r))))"

function dec_of_nat :: "nat \<Rightarrow> pystr" where
  "dec_of_nat n = (if n < 10 then [48 + n] else dec_of_nat (n div 10) @ [48 + n mod 10])"
  by pat_completeness auto
termination
  by (relation "measure id") auto

definition cpy_str_of :: "json \<Rightarrow> pystr" where
  "cpy_str_of v =
     (case v of
        JStr s \<Rightarrow> s
      | JNull \<Rightarrow> ustr ''None''
      | JBool b \<Rightarrow> (if b then ustr ''True'' else ustr ''False'')
      | JInt n \<Rightarrow> (if n < 0 then 45 # dec_of_nat (nat (- n)) else dec_of_nat (nat n))
      | _ \<Rightarrow> [])"

fun the_int :: "json \<Rightarrow> int" where
  "the_int (JInt n) = n"
| "the_int _ = 0"

fun is_int :: "json \<Rightarrow> bool" where
  "is_int (JInt n) = True"
| "is_int _ = False"

definition cpy_sorted_other :: "json list \<Rightarrow> py_error + json list" where
  "cpy_sorted_other xs =
     (if list_all is_int xs then Inr (map JInt (sort (map the_int xs))) else Inl TypeError)"

definition cpy :: builtins where
  "cpy = \<lparr>int_of_str = cpy_int_of_str, float_of_str = cpy_float_of_str,
          float_of_int = (\<lambda>n. Inr (PyFloat (real_of_int n))),
          is_space = cpy_is_space, str_lower = cpy_lower, str_of = cpy_str_of,
          path_str = (\<lambda>p. p), set_other = remdups, sorted_other = cpy_sorted_other\<rparr>"

section \<open>config.py\<close>

record RateLimitConfig =
  max_rows :: "int option"
  min_interval_seconds :: pyfloat
  source :: pystr

definition parse_int :: "builtins \<Rightarrow> pystr option \<Rightarrow> int option" where
  "parse_int B v =
     (case v of
        None \<Rightarrow> None
      | Some s \<Rightarrow>
          if s = [] then None
          else (case int_of_str B s of Inl _ \<Rightarrow> None | Inr n \<Rightarrow> Some n))"

definition parse_float :: "builtins \<Rightarrow> pystr option \<Rightarrow> pyfloat option" where
  "parse_float B v =
     (case v of
        None \<Rightarrow> None
      | Some s \<Rightarrow>
          if s = [] then None
          else (case float_of_str B s of Inl _ \<Rightarrow> None | Inr f \<Rightarrow> Some f))"

text \<open>
  The file system as the resolver sees it: \<open>fs p = None\<close> when no file is at \<open>p\<close>,
  \<open>Some (Inl e)\<close> when reading it or \<^verbatim>\<open>json.loads\<close> raises \<open>e\<close>, \<open>Some (Inr v)\<close> when it
  parses to \<open>v\<close>.
\<close>

type_synonym files = "pystr \<Rightarrow> (py_error + json) option"

definition load_limits :: "files \<Rightarrow> pystr option \<Rightarrow> py_error + json" where
  "load_limits fs path =
     (case path of
        None \<Rightarrow> Inr JNull
      | Some p \<Rightarrow>
          if p = [] then Inr JNull
          else (case fs p of None \<Rightarrow> Inr JNull | Some r \<Rightarrow> r))"

text \<open>The sort key of \<open>resolve_rate_limits\<close>: \<^verbatim>\<open>int(t.get("min_points", 0))\<close>.\<close>

definition tier_key :: "builtins \<Rightarrow> json \<Rightarrow> py_error + int" where
  "tier_key B t = pbind (dict_get t (ustr ''min_points'') (JInt 0)) (py_int B)"

text \<open>\<^verbatim>\<open>sorted(tiers, key=...)\<close>: the keys are computed first, one per element and in
  order, then the elements are sorted by key, stably.\<close>

definition sorted_tiers :: "builtins \<Rightarrow> json \<Rightarrow> py_error + json list" where
  "sorted_tiers B tiers =
     pbind (py_iter tiers) (\<lambda>ts.
     pbind (map_err (tier_key B) ts) (\<lambda>ks.
     Inr (map snd (sort_key fst (zip ks ts)))))"

text \<open>The loop over the sorted tiers; \<open>selected\<close> starts as \<open>None\<close>.\<close>

fun select_tier :: "builtins \<Rightarrow> int \<Rightarrow> json list \<Rightarrow> json option \<Rightarrow> json option" where
  "select_tier B points [] selected = selected"
| "select_tier B points (tier # rest) selected =
     (case tier_key B tier of
        Inl _ \<Rightarrow> select_tier B points rest selected
      | Inr min_points \<Rightarrow>
          select_tier B points rest (if points \<ge> min_points then Some tier else selected))"

text \<open>The block that builds the result from the selected tier, and again from the
  file's \<^verbatim>\<open>default\<close> object.\<close>

definition config_from ::
  "builtins \<Rightarrow> json \<Rightarrow> int \<Rightarrow> pyfloat \<Rightarrow> pystr option \<Rightarrow> py_error + RateLimitConfig" where
  "config_from B obj default_max_rows default_min_interval_seconds limits_path =
     pbind (dict_get obj (ustr ''max_rows'') (JInt default_max_rows)) (\<lambda>max_rows_value.
     pbind (if max_rows_value = JNull then Inr None
            else pbind (py_int B max_rows_value) (\<lambda>n. Inr (Some n))) (\<lambda>max_rows_value.
     pbind (dict_get obj (ustr ''min_interval_seconds'') (JFloat default_min_interval_seconds))
       (\<lambda>v.
     pbind (py_float B v) (\<lambda>f.
     Inr \<lparr>max_rows = max_rows_value, min_interval_seconds = f,
          source = ustr ''limits:'' @ (case limits_path of None \<Rightarrow> ustr ''None'' | Some p \<Rightarrow> p)\<rparr>))))"

text \<open>The fallback to the file's \<^verbatim>\<open>default\<close> object; \<open>Inr None\<close> when the code falls
  through to the partial overrides.\<close>

definition default_branch ::
  "builtins \<Rightarrow> json \<Rightarrow> int \<Rightarrow> pyfloat \<Rightarrow> pystr option
     \<Rightarrow> py_error + RateLimitConfig option" where
  "default_branch B limits default_max_rows default_min_interval_seconds limits_path =
     pbind (dict_get limits (ustr ''default'') JNull) (\<lambda>d.
       let default = py_or d (JObj []) in
       if truthy default then
         pbind (config_from B default default_max_rows default_min_interval_seconds
                  limits_path) (\<lambda>c. Inr (Some c))
       else Inr None)"

text \<open>The body of \<^verbatim>\<open>if limits and points is not None\<close>.\<close>

definition limits_branch ::
  "builtins \<Rightarrow> json \<Rightarrow> int \<Rightarrow> int \<Rightarrow> pyfloat \<Rightarrow> pystr option
     \<Rightarrow> py_error + RateLimitConfig option" where
  "limits_branch B limits points default_max_rows default_min_interval_seconds limits_path =
     pbind (dict_get limits (ustr ''tiers'') JNull) (\<lambda>t.
     pbind (sorted_tiers B (py_or t (JList []))) (\<lambda>ts.
       case select_tier B points ts None of
         None \<Rightarrow>
           default_branch B limits default_max_rows default_min_interval_seconds limits_path
       | Some selected \<Rightarrow>
           if truthy selected then
             pbind (config_from B selected default_max_rows default_min_interval_seconds
                      limits_path) (\<lambda>c. Inr (Some c))
           else
             default_branch B limits default_max_rows default_min_interval_seconds
               limits_path))"

text \<open>The two returns after the limits file: partial overrides, then the defaults.\<close>

definition env_or_default ::
  "int option \<Rightarrow> pyfloat option \<Rightarrow> int \<Rightarrow> pyfloat \<Rightarrow> RateLimitConfig" where
  "env_or_default mr mi default_max_rows default_min_interval_seconds =
     (if mr \<noteq> None \<or> mi \<noteq> None then
        \<lparr>max_rows = (case mr of Some n \<Rightarrow> Some n | None \<Rightarrow> Some default_max_rows),
         min_interval_seconds = (case mi of Some f \<Rightarrow> f | None \<Rightarrow> default_min_interval_seconds),
         source = ustr ''env:partial''\<rparr>
      else
        \<lparr>max_rows = Some default_max_rows,
         min_interval_seconds = default_min_interval_seconds,
         source = ustr ''default''\<rparr>)"

text \<open>\<open>resolve_rate_limits\<close> from \<^verbatim>\<open>limits = _load_limits(limits_path)\<close> on, given the
  parsed overrides.\<close>

definition limits_or_env ::
  "builtins \<Rightarrow> files \<Rightarrow> int option \<Rightarrow> pyfloat option \<Rightarrow> pystr option \<Rightarrow> pystr option
     \<Rightarrow> int \<Rightarrow> pyfloat \<Rightarrow> py_error + RateLimitConfig" where
  "limits_or_env B fs mr mi points_env limits_path default_max_rows
       default_min_interval_seconds =
     pbind (load_limits fs limits_path) (\<lambda>limits.
       case parse_int B points_env of
         Some points \<Rightarrow>
           if truthy limits then
             pbind (limits_branch B limits points default_max_rows
                      default_min_interval_seconds limits_path) (\<lambda>r.
               case r of
                 Some c \<Rightarrow> Inr c
               | None \<Rightarrow>
                   Inr (env_or_default mr mi default_max_rows default_min_interval_seconds))
           else Inr (env_or_default mr mi default_max_rows default_min_interval_seconds)
       | None \<Rightarrow> Inr (env_or_default mr mi default_max_rows default_min_interval_seconds))"

definition resolve_rate_limits ::
  "builtins \<Rightarrow> files \<Rightarrow> pystr option \<Rightarrow> pystr option \<Rightarrow> pystr option \<Rightarrow> pystr option
     \<Rightarrow> int \<Rightarrow> pyfloat \<Rightarrow> py_error + RateLimitConfig" where
  "resolve_rate_limits B fs max_rows_env min_interval_env points_env limits_path
       default_max_rows default_min_interval_seconds =
     (let mr = parse_int B max_rows_env; mi = parse_float B min_interval_env in
      case (mr, mi) of
        (Some n, Some f) \<Rightarrow>
          Inr \<lparr>max_rows = Some n, min_interval_seconds = f, source = ustr ''env:explicit''\<rparr>
      | _ \<Rightarrow>
          limits_or_env B fs mr mi points_env limits_path default_max_rows
            default_min_interval_seconds)"

subsection \<open>The tier table of the specification's example\<close>

definition spec_example_limits :: json where
  "spec_example_limits = JObj [(ustr ''tiers'', JList [
     JObj [(ustr ''min_points'', JInt 0), (ustr ''max_rows'', JInt 100),
           (ustr ''min_interval_seconds'', JFloat (PyFloat 1.0))],
     JObj [(ustr ''min_points'', JInt 2000), (ustr ''max_rows'', JInt 1000),
           (ustr ''min_interval_seconds'', JFloat (PyFloat 0.3))],
     JObj [(ustr ''min_points'', JInt 5000), (ustr ''max_rows'', JInt 5000),
           (ustr ''min_interval_seconds'', JFloat (PyFloat 0.1))]])]"

definition spec_example_files :: files where
  "spec_example_files p = (if p = ustr ''limits.json'' then Some (Inr spec_example_limits) else None)"

subsection \<open>Well-formed limits files\<close>

text \<open>
  The rate-limit tiers file of the specification: an object with an optional \<^verbatim>\<open>tiers\<close>
  list and an optional \<^verbatim>\<open>default\<close> object. \<open>limits_entries\<close> lists the tiers and the
  default object of a file; an entry is usable (\<open>entry_ok\<close>) when it is an object whose
  \<^verbatim>\<open>max_rows\<close> is absent, null or accepted by \<^verbatim>\<open>int()\<close> and whose
  \<^verbatim>\<open>min_interval_seconds\<close> is absent or accepted by \<^verbatim>\<open>float()\<close>; a file is well formed
  (\<open>limits_ok\<close>) when its tiers are usable entries with a \<^verbatim>\<open>min_points\<close> accepted by
  \<^verbatim>\<open>int()\<close> and its default object is a usable entry.
\<close>

definition limits_entries :: "json \<Rightarrow> json list" where
  "limits_entries limits =
     (case limits of
        JObj kvs \<Rightarrow>
          (case map_of kvs (ustr ''tiers'') of Some (JList ts) \<Rightarrow> ts | _ \<Rightarrow> [])
          @ (case map_of kvs (ustr ''default'') of Some d \<Rightarrow> [d] | None \<Rightarrow> [])
      | _ \<Rightarrow> [])"

definition entry_ok :: "builtins \<Rightarrow> json \<Rightarrow> bool" where
  "entry_ok B obj =
     (case obj of
        JObj kvs \<Rightarrow>
          (case map_of kvs (ustr ''max_rows'') of
             None \<Rightarrow> True
           | Some v \<Rightarrow> v = JNull \<or> \<not> isl (py_int B v))
          \<and> (case map_of kvs (ustr ''min_interval_seconds'') of
                None \<Rightarrow> True
              | Some v \<Rightarrow> \<not> isl (py_float B v))
      | _ \<Rightarrow> False)"

definition limits_ok :: "builtins \<Rightarrow> json \<Rightarrow> bool" where
  "limits_ok B limits =
     (case limits of
        JObj kvs \<Rightarrow>
          (case map_of kvs (ustr ''tiers'') of
             None \<Rightarrow> True
           | Some tv \<Rightarrow>
               \<not> truthy tv
               \<or> (case tv of
                     JList ts \<Rightarrow> list_all (\<lambda>t. entry_ok B t \<and> \<not> isl (tier_key B t)) ts
                   | _ \<Rightarrow> False))
          \<and> (case map_of kvs (ustr ''default'') of
                None \<Rightarrow> True
              | Some d \<Rightarrow> \<not> truthy d \<or> entry_ok B d)
      | _ \<Rightarrow> False)"

section \<open>specs.py\<close>

text \<open>\<^verbatim>\<open>re.sub(r"\s+", " ", text)\<close>: every maximal run of white space becomes one space.\<close>

function collapse_ws :: "builtins \<Rightarrow> pystr \<Rightarrow> pystr" where
  "collapse_ws B [] = []"
| "collapse_ws B (c # cs) =
     (if is_space B c then 32 # collapse_ws B (dropWhile (is_space B) cs)
      else c # collapse_ws B cs)"
  by pat_completeness auto
termination
  by (relation "measure (\<lambda>(B, s). length s)")
    (auto simp: length_dropWhile_le intro: le_imp_less_Suc)

definition normalize :: "builtins \<Rightarrow> pystr \<Rightarrow> pystr" where
  "normalize B text = str_lower B (strip B (collapse_ws B text))"

record SpecStore =
  apis :: json
  meta :: json

text \<open>\<open>now\<close> is what \<^verbatim>\<open>_now_iso()\<close> returns at the call.\<close>

definition empty_store :: "pystr \<Rightarrow> SpecStore" where
  "empty_store now =
     \<lparr>apis = JObj [],
      meta = JObj [(ustr ''loaded_at'', JStr now), (ustr ''source'', JStr (ustr ''empty''))]\<rparr>"

text \<open>\<^verbatim>\<open>d[k] = v\<close> on the entries of a dict: a key that is present keeps its place.\<close>

fun dict_set :: "(pystr \<times> json) list \<Rightarrow> pystr \<Rightarrow> json \<Rightarrow> (pystr \<times> json) list" where
  "dict_set [] k v = [(k, v)]"
| "dict_set ((k', v') # kvs) k v =
     (if k' = k then (k, v) # kvs else (k', v') # dict_set kvs k v)"

definition load :: "builtins \<Rightarrow> files \<Rightarrow> pystr \<Rightarrow> pystr option \<Rightarrow> py_error + SpecStore" where
  "load B fs now path =
     (case path of
        None \<Rightarrow> Inr (empty_store now)
      | Some p \<Rightarrow>
          if p = [] then Inr (empty_store now)
          else (case fs p of
                  None \<Rightarrow> Inr (empty_store now)
                | Some r \<Rightarrow>
                    pbind r (\<lambda>raw.
                    pbind (dict_get raw (ustr ''apis'') JNull) (\<lambda>a.
                    pbind (dict_get raw (ustr ''meta'') JNull) (\<lambda>m.
                      case py_or m (JObj []) of
                        JObj kvs \<Rightarrow>
                          Inr \<lparr>apis = py_or a (JObj []),
                               meta = JObj (dict_set (dict_set kvs (ustr ''loaded_at'') (JStr now))
                                              (ustr ''spec_path'') (JStr (path_str B p)))\<rparr>
                      | _ \<Rightarrow> Inl TypeError)))))"

text \<open>\<open>get\<close> returns \<open>JNull\<close> for \<^verbatim>\<open>None\<close>.\<close>

definition get :: "SpecStore \<Rightarrow> pystr \<Rightarrow> py_error + json" where
  "get store api_name = dict_get (apis store) api_name JNull"

text \<open>The title, the description and the searchable text that one round of the loop of
  \<open>search\<close> builds for an endpoint; the parts are evaluated in the order of the source.\<close>

definition haystack :: "builtins \<Rightarrow> pystr \<Rightarrow> json \<Rightarrow> py_error + pystr \<times> pystr \<times> pystr" where
  "haystack B api_name spec =
     pbind (dict_get spec (ustr ''title'') JNull) (\<lambda>t.
     pbind (dict_get spec (ustr ''description'') JNull) (\<lambda>d.
     pbind (dict_get spec (ustr ''aliases'') JNull) (\<lambda>a.
     pbind (py_iter (py_or a (JList []))) (\<lambda>aliases.
     pbind (dict_get spec (ustr ''input'') JNull) (\<lambda>i.
     pbind (dict_get (py_or i (JObj [])) (ustr ''required'') JNull) (\<lambda>r.
     pbind (py_iter (py_or r (JList []))) (\<lambda>rs.
     pbind (str_items rs) (\<lambda>required.
     pbind (dict_get (py_or i (JObj [])) (ustr ''properties'') JNull) (\<lambda>p.
     pbind (dict_keys (py_or p (JObj []))) (\<lambda>properties.
     pbind (dict_get spec (ustr ''output'') JNull) (\<lambda>out.
     pbind (dict_get (py_or out (JObj [])) (ustr ''fields'') JNull) (\<lambda>f.
     pbind (py_iter (py_or f (JList []))) (\<lambda>fields.
     pbind (map_err (\<lambda>f. dict_get f (ustr ''name'') (JStr [])) fields) (\<lambda>ns.
     pbind (str_items ns) (\<lambda>names.
       let title = py_str B (py_or t (JStr [])); desc = py_str B (py_or d (JStr [])) in
       Inr (title, desc,
            py_join [32]
              [api_name, title, desc, py_join [32] (map (py_str B) aliases),
               py_join [32] required, py_join [32] properties,
               py_join [32] names]))))))))))))))))"

text \<open>One round of the loop: \<open>Inr None\<close> is \<^verbatim>\<open>continue\<close>, \<open>Inr (Some (score, spec))\<close> is what
  the round appends to \<^verbatim>\<open>results\<close>.\<close>

definition search_entry ::
  "builtins \<Rightarrow> pystr \<Rightarrow> pystr \<Rightarrow> json \<Rightarrow> py_error + (int \<times> json) option" where
  "search_entry B kw api_name spec =
     pbind (haystack B api_name spec) (\<lambda>(title, desc, hay).
       if \<not> sublist kw (normalize B hay) then Inr None
       else
         let score = 1;
             score = (if sublist kw (normalize B api_name) then score + 10 else score);
             score = (if sublist kw (normalize B title) then score + 5 else score);
             score = (if sublist kw (normalize B desc) then score + 3 else score)
         in Inr (Some (score, spec)))"

fun search_loop ::
  "builtins \<Rightarrow> pystr \<Rightarrow> (pystr \<times> json) list \<Rightarrow> py_error + (int \<times> json) list" where
  "search_loop B kw [] = Inr []"
| "search_loop B kw ((api_name, spec) # rest) =
     pbind (search_entry B kw api_name spec) (\<lambda>r.
     pbind (search_loop B kw rest) (\<lambda>results.
       Inr (case r of None \<Rightarrow> results | Some e \<Rightarrow> e # results)))"

text \<open>\<^verbatim>\<open>results.sort(key=lambda x: x[0], reverse=True)\<close> sorts by descending score and keeps
  the order of entries with equal scores, as \<open>sort_key\<close> on the negated score does.\<close>

definition search :: "builtins \<Rightarrow> SpecStore \<Rightarrow> pystr \<Rightarrow> int \<Rightarrow> py_error + json list" where
  "search B store keyword limit =
     (let kw = normalize B keyword in
      if kw = [] then Inr []
      else
        pbind (case apis store of JObj items \<Rightarrow> Inr items | _ \<Rightarrow> Inl AttributeError) (\<lambda>items.
        pbind (search_loop B kw items) (\<lambda>results.
          Inr (map snd (take (nat (max 1 limit)) (sort_key (\<lambda>x. - fst x) results))))))"

record validation =
  ok :: bool
  missing_required :: "json list"
  unknown_params :: "pystr list"

text \<open>\<^verbatim>\<open>k not in params or params.get(k) in (None, "")\<close>; the keys of \<open>params\<close> are strings.\<close>

definition is_missing :: "(pystr \<times> json) list \<Rightarrow> json \<Rightarrow> bool" where
  "is_missing params k =
     (case k of
        JStr s \<Rightarrow>
          (case map_of params s of
             None \<Rightarrow> True
           | Some v \<Rightarrow> v = JNull \<or> v = JStr [])
      | _ \<Rightarrow> True)"

definition validate_params ::
  "builtins \<Rightarrow> json \<Rightarrow> (pystr \<times> json) list \<Rightarrow> py_error + validation" where
  "validate_params B spec params =
     (if \<not> truthy spec then Inr \<lparr>ok = True, missing_required = [], unknown_params = []\<rparr>
      else
        pbind (dict_get spec (ustr ''input'') JNull) (\<lambda>i.
          let input_schema = py_or i (JObj []) in
          pbind (dict_get input_schema (ustr ''required'') JNull) (\<lambda>r.
          pbind (py_set B (py_or r (JList []))) (\<lambda>required.
          pbind (dict_get input_schema (ustr ''properties'') JNull) (\<lambda>p.
          pbind (dict_keys (py_or p (JObj []))) (\<lambda>properties.
          pbind (py_sorted B (filter (is_missing params) required)) (\<lambda>missing.
            Inr \<lparr>ok = (missing = []),
                 missing_required = missing,
                 unknown_params =
                   sort (filter (\<lambda>k. properties \<noteq> [] \<and> k \<notin> set properties)
                           (map fst params))\<rparr>)))))))"

subsection \<open>The specification's reading of search and validation\<close>





text \<open>The property names an Endpoint Specification declares (none when the input schema
  or its \<^verbatim>\<open>properties\<close> is absent).\<close>

definition declared_properties :: "json \<Rightarrow> pystr list" where
  "declared_properties spec =
     (case spec of
        JObj sk \<Rightarrow>
          (case map_of sk (ustr ''input'') of
             Some (JObj ik) \<Rightarrow>
               (case map_of ik (ustr ''properties'') of
                  Some (JObj pk) \<Rightarrow> map fst pk
                | _ \<Rightarrow> [])
           | _ \<Rightarrow> [])
      | _ \<Rightarrow> [])"

text \<open>The endpoint of the specification's validation example: \<^verbatim>\<open>ts_code\<close> is required,
  \<^verbatim>\<open>ts_code\<close> and \<^verbatim>\<open>start_date\<close> are declared.\<close>

definition spec_example_endpoint :: json where
  "spec_example_endpoint =
     JObj [(ustr ''name'', JStr (ustr ''daily'')),
           (ustr ''input'',
            JObj [(ustr ''properties'',
                   JObj [(ustr ''ts_code'', JObj [(ustr ''type'', JStr (ustr ''string''))]),
                         (ustr ''start_date'', JObj [(ustr ''type'', JStr (ustr ''string''))])]),
                  (ustr ''required'', JList [JStr (ustr ''ts_code'')])])]"




section \<open>scrape.py\<close>

text \<open>\<^verbatim>\<open>_coerce_type\<close>; \<open>None\<close> is a missing type text.\<close>

definition coerce_type :: "builtins \<Rightarrow> pystr option \<Rightarrow> json" where
  "coerce_type B type_text =
     (let t = str_lower B (strip B (case type_text of None \<Rightarrow> [] | Some s \<Rightarrow> s)) in
      if t = [] then JObj [(ustr ''type'', JStr (ustr ''string''))]
      else if t \<in> {ustr ''str'', ustr ''string'', ustr ''text'', ustr ''varchar''}
        then JObj [(ustr ''type'', JStr (ustr ''string''))]
      else if t \<in> {ustr ''int'', ustr ''integer'', ustr ''long''}
        then JObj [(ustr ''type'', JStr (ustr ''integer''))]
      else if t \<in> {ustr ''float'', ustr ''double'', ustr ''number'', ustr ''decimal''}
        then JObj [(ustr ''type'', JStr (ustr ''number''))]
      else if t \<in> {ustr ''bool'', ustr ''boolean''}
        then JObj [(ustr ''type'', JStr (ustr ''boolean''))]
      else if sublist (ustr ''date'') t \<or> sublist (ustr ''datetime'') t \<or> sublist (ustr ''time'') t
        then JObj [(ustr ''type'', JStr (ustr ''string'')),
                   (ustr ''format'',
                    JStr (if sublist (ustr ''time'') t then ustr ''date-time'' else ustr ''date''))]
      else JObj [(ustr ''type'', JStr (ustr ''string'')), (ustr ''ts_type'', JStr t)])"

subsection \<open>The regular expressions of \<^verbatim>\<open>_extract_max_rows\<close>\<close>

text \<open>
  The two patterns are sequences of four kinds of items: a literal, an alternation of
  literals (tried in order), a greedy bounded repetition of a negated character class, and
  a greedy repetition of one character. \<open>item_ends\<close> lists the inputs left after an item
  has matched at the front, in the order in which the backtracking matcher of \<^verbatim>\<open>re\<close>
  tries them (the longest repetition first).
\<close>

datatype item =
    Lit pystr
  | Alts "pystr list"
  | NotIn "nat list" nat nat
  | Rep nat nat "nat option"

fun item_ends :: "item \<Rightarrow> pystr \<Rightarrow> pystr list" where
  "item_ends (Lit s) inp = (if prefix s inp then [drop (length s) inp] else [])"
| "item_ends (Alts ss) inp =
     concat (map (\<lambda>s. if prefix s inp then [drop (length s) inp] else []) ss)"
| "item_ends (NotIn cs lo hi) inp =
     (let k = length (takeWhile (\<lambda>c. c \<notin> set cs) (take hi inp))
      in map (\<lambda>j. drop j inp) (rev [lo ..< Suc k]))"
| "item_ends (Rep c lo hi) inp =
     (let k = length (takeWhile (\<lambda>x. x = c)
                        (case hi of None \<Rightarrow> inp | Some h \<Rightarrow> take h inp))
      in map (\<lambda>j. drop j inp) (rev [lo ..< Suc k]))"

fun seq_ends :: "item list \<Rightarrow> pystr \<Rightarrow> pystr list" where
  "seq_ends [] inp = [inp]"
| "seq_ends (i # is) inp = concat (map (seq_ends is) (item_ends i inp))"

text \<open>A pattern with one capturing group: the items before the group, those of the
  group, and those after it. \<open>match_at\<close> is the first match at the front of the input: the
  text of the group and the input after the match.\<close>

record pattern =
  before_group :: "item list"
  in_group :: "item list"
  after_group :: "item list"

definition match_at :: "pattern \<Rightarrow> pystr \<Rightarrow> (pystr \<times> pystr) option" where
  "match_at pat inp =
     (case concat (map (\<lambda>r1.
             concat (map (\<lambda>r2.
               map (\<lambda>r3. (take (length r1 - length r2) r1, r3))
                 (seq_ends (after_group pat) r2))
               (seq_ends (in_group pat) r1)))
             (seq_ends (before_group pat) inp)) of
        [] \<Rightarrow> None
      | m # _ \<Rightarrow> Some m)"

text \<open>\<^verbatim>\<open>re.findall\<close>: the group of every match, scanning from left to right; the scan
  goes on after a match, or one character further where nothing matches (or the match is
  empty, which the two patterns here never are).\<close>

function findall :: "pattern \<Rightarrow> pystr \<Rightarrow> pystr list" where
  "findall pat inp =
     (case match_at pat inp of
        Some (g, rest) \<Rightarrow>
          if length rest < length inp then g # findall pat rest
          else (case inp of [] \<Rightarrow> [g] | _ # cs \<Rightarrow> g # findall pat cs)
      | None \<Rightarrow> (case inp of [] \<Rightarrow> [] | _ # cs \<Rightarrow> findall pat cs))"
  by pat_completeness auto
termination
  by (relation "measure (\<lambda>(pat, inp). length inp)") auto

text \<open>
  The raw string \<^verbatim>\<open>[^\\d]{0,20}(\\d{1,7})\\s*\<close> is the regular expression: at most 20
  characters other than a backslash and the letter d; the group, a backslash and one to
  seven letters d; a backslash and any number of letters s. Code point 92 is the backslash.
\<close>

definition limit_phrases :: "pystr list" where
  "limit_phrases =
     [[0x9650, 0x91CF],
      [0x5355, 0x6B21, 0x6700, 0x5927],
      [0x5355, 0x6B21, 0x6700, 0x591A],
      [0x5355, 0x6B21],
      [0x6BCF, 0x6B21],
      [0x5355, 0x7B14],
      [0x4E00, 0x6B21],
      [0x6BCF, 0x6B21, 0x8FD4, 0x56DE, 0x884C, 0x6570],
      [0x6BCF, 0x6B21, 0x8FD4, 0x56DE],
      [0x6BCF, 0x6B21, 0x53EF, 0x8BF7, 0x6C42, 0x80A1, 0x7968, 0x6570],
      [0x5355, 0x6B21, 0x53EF, 0x8BF7, 0x6C42, 0x80A1, 0x7968, 0x6570],
      [0x5355, 0x6B21, 0x8BF7, 0x6C42, 0x80A1, 0x7968, 0x6570]]"

definition units :: "pystr list" where
  "units = [[0x6761], [0x884C], [0x53EA]]"

definition pattern1 :: pattern where
  "pattern1 =
     \<lparr>before_group = [Alts limit_phrases, NotIn [92, 100] 0 20],
      in_group = [Lit [92], Rep 100 1 (Some 7)],
      after_group = [Lit [92], Rep 115 0 None, Alts units]\<rparr>"

definition pattern2 :: pattern where
  "pattern2 =
     \<lparr>before_group = [],
      in_group = [Lit [92], Rep 100 1 (Some 7)],
      after_group =
        [Lit [92], Rep 115 0 None, Alts units, NotIn [92, 110] 0 12,
         Alts [[0x6BCF, 0x6B21], [0x5355, 0x6B21], [0x8FD4, 0x56DE], [0x8BF7, 0x6C42]]]\<rparr>"

definition extract_max_rows :: "builtins \<Rightarrow> pystr \<Rightarrow> py_error + int option" where
  "extract_max_rows B text =
     (if text = [] then Inr None
      else
        pbind (map_err (int_of_str B) (findall pattern1 text)) (\<lambda>n1.
        pbind (map_err (int_of_str B) (findall pattern2 text)) (\<lambda>n2.
          let numbers = n1 @ n2 in
          Inr (if numbers = [] then None else Some (fold max (tl numbers) (hd numbers))))))"

section \<open>The login heuristic of the session capture script\<close>

text \<open>
  What the heuristic reads of the browser page: \<^verbatim>\<open>page.url\<close>, the result of
  \<^verbatim>\<open>page.evaluate\<close> on the local storage, and \<^verbatim>\<open>page.context.cookies()\<close>; each is the
  value, or the exception the call raises.
\<close>

record page =
  page_url :: "py_error + pystr"
  local_storage :: "py_error + json"
  cookies :: "py_error + json"

text \<open>The first \<^verbatim>\<open>try\<close> block: \<open>Inr True\<close> where it returns \<^verbatim>\<open>True\<close>, \<open>Inr False\<close> where it
  ends without returning, \<open>Inl e\<close> where it raises (which the \<^verbatim>\<open>except\<close> swallows).\<close>

definition storage_block :: "builtins \<Rightarrow> page \<Rightarrow> py_error + bool" where
  "storage_block B p =
     pbind (local_storage p) (\<lambda>ls.
     pbind (dict_keys ls) (\<lambda>ks.
       let keys = map (\<lambda>k. str_lower B k) ks in
       Inr (list_ex (\<lambda>k. sublist (ustr ''token'') k \<or> sublist (ustr ''auth'') k) keys)))"

text \<open>The loop over the cookies, and the second \<^verbatim>\<open>try\<close> block.\<close>

fun cookie_loop :: "builtins \<Rightarrow> json list \<Rightarrow> py_error + bool" where
  "cookie_loop B [] = Inr False"
| "cookie_loop B (c # cs) =
     pbind (dict_get c (ustr ''name'') (JStr [])) (\<lambda>n.
       let name = str_lower B (py_str B n) in
       if sublist (ustr ''token'') name \<or> sublist (ustr ''session'') name
          \<or> sublist (ustr ''auth'') name
       then Inr True
       else cookie_loop B cs)"

definition cookie_block :: "builtins \<Rightarrow> page \<Rightarrow> py_error + bool" where
  "cookie_block B p = pbind (cookies p) (\<lambda>v. pbind (py_iter v) (cookie_loop B))"

text \<open>\<^verbatim>\<open>_looks_logged_in\<close>. The URL of a page is a string, on which \<^verbatim>\<open>page.url or ""\<close> is
  the URL itself; when reading it raises, the URL is taken to be empty.\<close>

definition looks_logged_in :: "builtins \<Rightarrow> page \<Rightarrow> bool" where
  "looks_logged_in B p =
     (let url = (case page_url p of Inl _ \<Rightarrow> [] | Inr u \<Rightarrow> u) in
      if \<not> sublist (ustr ''login'') url then True
      else if storage_block B p = Inr True then True
      else if cookie_block B p = Inr True then True
      else False)"

text \<open>The login page the script opens.\<close>

definition login_page_url :: pystr where
  "login_page_url = ustr ''https://tushare.pro/weborder/#/login''"

section \<open>Basic facts\<close>

lemma ustr_eq_iff [simp]: "ustr a = ustr b \<longleftrightarrow> a = b"
  by (simp add: ustr_def inj_map_eq_map[OF inj_of_char])

lemma pbind_Inr [simp]: "pbind (Inr x) f = f x"
  by (simp add: pbind_def)

lemma pbind_Inl [simp]: "pbind (Inl e) f = Inl e"
  by (simp add: pbind_def)

section \<open>Properties of config.py\<close>

lemma map_err_ok:
  "\<forall>x\<in>set xs. \<exists>y. f x = Inr y \<Longrightarrow> map_err f xs = Inr (map (\<lambda>x. projr (f x)) xs)"
  by (induction xs) auto

lemma insort_key_map_pair:
  "insort_key fst (k x, x) (map (\<lambda>t. (k t, t)) ys) = map (\<lambda>t. (k t, t)) (insort_key k x ys)"
  by (induction ys) auto

lemma sort_key_map_pair:
  "sort_key fst (map (\<lambda>t. (k t, t)) xs) = map (\<lambda>t. (k t, t)) (sort_key k xs)"
  by (induction xs) (simp_all add: sort_key_def insort_key_map_pair)

lemma sorted_tiers_JList:
  assumes "\<forall>t\<in>set ts. \<exists>n. tier_key B t = Inr n"
  shows "sorted_tiers B (JList ts) = Inr (sort_key (\<lambda>t. projr (tier_key B t)) ts)"
proof -
  have "zip (map (\<lambda>x. projr (tier_key B x)) ts) ts = map (\<lambda>t. (projr (tier_key B t), t)) ts"
    by (induction ts) auto
  then show ?thesis
    using map_err_ok[OF assms]
    by (simp add: sorted_tiers_def py_iter_def sort_key_map_pair comp_def)
qed





lemma resolve_not_explicit:
  "parse_int B max_rows_env = None \<or> parse_float B min_interval_env = None \<Longrightarrow>
   resolve_rate_limits B fs max_rows_env min_interval_env points_env limits_path dmr dmi
   = limits_or_env B fs (parse_int B max_rows_env) (parse_float B min_interval_env) points_env
       limits_path dmr dmi"
  by (auto simp: resolve_rate_limits_def Let_def split: option.splits)




lemma map_err_length: "map_err f xs = Inr ys \<Longrightarrow> length ys = length xs"
  by (induction xs arbitrary: ys) (auto split: sum.splits)

lemma select_tier_mem: "select_tier B p xs sel = Some t \<Longrightarrow> t \<in> set xs \<or> sel = Some t"
proof (induction xs arbitrary: sel)
  case Nil
  then show ?case by simp
next
  case (Cons x xs)
  then show ?case
    by (cases "tier_key B x") (fastforce split: if_splits)+
qed

lemma sorted_tiers_set:
  assumes "sorted_tiers B v = Inr ts"
  shows "\<exists>ts0. py_iter v = Inr ts0 \<and> set ts = set ts0"
proof -
  from assms obtain ts0 ks where it: "py_iter v = Inr ts0"
    and ks: "map_err (tier_key B) ts0 = Inr ks"
    and ts: "ts = map snd (sort_key fst (zip ks ts0))"
    by (auto simp: sorted_tiers_def pbind_def split: sum.splits)
  have "length ks = length ts0" by (rule map_err_length[OF ks])
  then have "map snd (zip ks ts0) = ts0" by (rule map_snd_zip)
  moreover have "set ts = set (map snd (zip ks ts0))"
    unfolding ts by simp
  ultimately have "set ts = set ts0" by simp
  with it show ?thesis by blast
qed

lemma config_from_ge0:
  assumes "config_from B obj dmr dmi path = Inr cfg" and "float_ge0 dmi"
    and "\<forall>kvs v f. obj = JObj kvs \<longrightarrow> map_of kvs (ustr ''min_interval_seconds'') = Some v
           \<longrightarrow> py_float B v = Inr f \<longrightarrow> float_ge0 f"
  shows "float_ge0 (min_interval_seconds cfg)"
  using assms
  by (cases obj)
    (auto simp: config_from_def dict_get_def pbind_def split: option.splits sum.splits if_splits)

lemma default_branch_ge0:
  assumes r: "default_branch B limits dmr dmi path = Inr (Some cfg)" and d: "float_ge0 dmi"
    and e: "\<forall>kvs v f. JObj kvs \<in> set (limits_entries limits)
           \<longrightarrow> map_of kvs (ustr ''min_interval_seconds'') = Some v
           \<longrightarrow> py_float B v = Inr f \<longrightarrow> float_ge0 f"
  shows "float_ge0 (min_interval_seconds cfg)"
proof -
  from r obtain lk where lk: "limits = JObj lk"
    by (cases limits) (simp_all add: default_branch_def dict_get_def)
  show ?thesis
  proof (cases "map_of lk (ustr ''default'')")
    case None
    with r lk show ?thesis
      by (simp add: default_branch_def dict_get_def py_or_def)
  next
    case (Some dv)
    with r lk have tr: "truthy dv" and c: "config_from B dv dmr dmi path = Inr cfg"
      by (auto simp: default_branch_def dict_get_def py_or_def Let_def pbind_def
               split: if_splits sum.splits)
    have "dv \<in> set (limits_entries limits)"
      using lk Some by (simp add: limits_entries_def)
    with e have "\<forall>kvs v f. dv = JObj kvs \<longrightarrow> map_of kvs (ustr ''min_interval_seconds'') = Some v
           \<longrightarrow> py_float B v = Inr f \<longrightarrow> float_ge0 f"
      by blast
    with c d show ?thesis by (rule config_from_ge0)
  qed
qed

lemma limits_branch_ge0:
  assumes r: "limits_branch B limits p dmr dmi path = Inr (Some cfg)" and d: "float_ge0 dmi"
    and e: "\<forall>kvs v f. JObj kvs \<in> set (limits_entries limits)
           \<longrightarrow> map_of kvs (ustr ''min_interval_seconds'') = Some v
           \<longrightarrow> py_float B v = Inr f \<longrightarrow> float_ge0 f"
  shows "float_ge0 (min_interval_seconds cfg)"
proof -
  from r obtain lk where lk: "limits = JObj lk"
    by (cases limits) (simp_all add: limits_branch_def dict_get_def)
  define tv where "tv = py_or (case map_of lk (ustr ''tiers'') of None \<Rightarrow> JNull | Some v \<Rightarrow> v)
                          (JList [])"
  from r lk obtain ts where ts: "sorted_tiers B tv = Inr ts"
    by (auto simp: limits_branch_def dict_get_def pbind_def tv_def split: sum.splits)
  let ?D = "default_branch B limits dmr dmi path"
  from r ts have r': "(case select_tier B p ts None of
         None \<Rightarrow> ?D
       | Some selected \<Rightarrow>
           if truthy selected then pbind (config_from B selected dmr dmi path) (\<lambda>c. Inr (Some c))
           else ?D) = Inr (Some cfg)"
    unfolding lk by (simp add: limits_branch_def dict_get_def tv_def)
  show ?thesis
  proof (cases "select_tier B p ts None")
    case None
    with r' have "?D = Inr (Some cfg)" by simp
    then show ?thesis using d e by (rule default_branch_ge0)
  next
    case (Some t)
    show ?thesis
    proof (cases "truthy t")
      case False
      with r' Some have "?D = Inr (Some cfg)" by simp
      then show ?thesis using d e by (rule default_branch_ge0)
    next
      case True
      with r' Some have c: "config_from B t dmr dmi path = Inr cfg"
        by (auto simp: pbind_def split: sum.splits)
      from select_tier_mem[OF Some] have mem: "t \<in> set ts" by simp
      from sorted_tiers_set[OF ts] obtain ts0 where it: "py_iter tv = Inr ts0"
        and st: "set ts = set ts0" by blast
      from c obtain tk where tk: "t = JObj tk"
        by (cases t) (simp_all add: config_from_def dict_get_def)
      have "t \<in> set (limits_entries limits)"
      proof (cases "map_of lk (ustr ''tiers'')")
        case None
        with it mem st show ?thesis
          by (simp add: tv_def py_or_def py_iter_def)
      next
        case (Some v)
        show ?thesis
        proof (cases v)
          case (JList xs)
          with Some it mem st lk show ?thesis
            by (auto simp: tv_def py_or_def py_iter_def limits_entries_def split: if_splits)
        qed (use Some it mem st tk in \<open>auto simp: tv_def py_or_def py_iter_def split: if_splits\<close>)
      qed
      with e have "\<forall>kvs v f. t = JObj kvs \<longrightarrow> map_of kvs (ustr ''min_interval_seconds'') = Some v
           \<longrightarrow> py_float B v = Inr f \<longrightarrow> float_ge0 f"
        by blast
      with c d show ?thesis by (rule config_from_ge0)
    qed
  qed
qed

text \<open>
  Claim C7, amended. The resolver does not check the sign of an interval: a negative
  override or file entry is returned as it is (see the counterexample below). When the
  default interval is at least 0, the interval override, if it parses, is at least 0, and
  every \<^verbatim>\<open>min_interval_seconds\<close> entry of the file's tiers and default object that
  \<^verbatim>\<open>float()\<close> accepts is at least 0, every configuration returned has
  \<^verbatim>\<open>min_interval_seconds\<close> at least 0.
\<close>

theorem resolve_rate_limits_min_interval_nonneg:
  assumes d: "float_ge0 default_min_interval_seconds"
    and env: "\<forall>f. parse_float B min_interval_env = Some f \<longrightarrow> float_ge0 f"
    and lfile: "\<forall>limits kvs v f. load_limits fs limits_path = Inr limits
           \<longrightarrow> JObj kvs \<in> set (limits_entries limits)
           \<longrightarrow> map_of kvs (ustr ''min_interval_seconds'') = Some v
           \<longrightarrow> py_float B v = Inr f \<longrightarrow> float_ge0 f"
    and r: "resolve_rate_limits B fs max_rows_env min_interval_env points_env limits_path
              default_max_rows default_min_interval_seconds = Inr cfg"
  shows "float_ge0 (min_interval_seconds cfg)"
proof -
  let ?mr = "parse_int B max_rows_env" and ?mi = "parse_float B min_interval_env"
  have eod: "float_ge0 (min_interval_seconds
               (env_or_default ?mr ?mi default_max_rows default_min_interval_seconds))"
    using d env by (auto simp: env_or_default_def split: option.splits)
  show ?thesis
  proof (cases "?mr \<noteq> None \<and> ?mi \<noteq> None")
    case True
    with r env show ?thesis
      by (auto simp: resolve_rate_limits_def Let_def)
  next
    case False
    then have "?mr = None \<or> ?mi = None" by simp
    with r have l: "limits_or_env B fs ?mr ?mi points_env limits_path default_max_rows
                      default_min_interval_seconds = Inr cfg"
      by (auto simp: resolve_rate_limits_def Let_def split: option.splits)
    then obtain limits where ld: "load_limits fs limits_path = Inr limits"
      by (auto simp: limits_or_env_def pbind_def split: sum.splits)
    from lfile ld have e: "\<forall>kvs v f. JObj kvs \<in> set (limits_entries limits)
           \<longrightarrow> map_of kvs (ustr ''min_interval_seconds'') = Some v
           \<longrightarrow> py_float B v = Inr f \<longrightarrow> float_ge0 f"
      by blast
    show ?thesis
    proof (cases "parse_int B points_env")
      case None
      with l ld eod show ?thesis by (auto simp: limits_or_env_def)
    next
      case (Some p)
      show ?thesis
      proof (cases "truthy limits")
        case False
        with l ld Some eod show ?thesis by (auto simp: limits_or_env_def)
      next
        case True
        with l ld Some obtain rr where
          lb: "limits_branch B limits p default_max_rows default_min_interval_seconds limits_path
                 = Inr rr"
          and rr: "(case rr of Some c \<Rightarrow> c
                    | None \<Rightarrow> env_or_default ?mr ?mi default_max_rows
                                default_min_interval_seconds) = cfg"
          by (auto simp: limits_or_env_def pbind_def split: sum.splits option.splits)
        show ?thesis
        proof (cases rr)
          case None
          with rr eod show ?thesis by auto
        next
          case (Some c)
          with rr lb have "limits_branch B limits p default_max_rows default_min_interval_seconds
                             limits_path = Inr (Some cfg)" by simp
          then show ?thesis using d e by (rule limits_branch_ge0)
        qed
      qed
    qed
  qed
qed

lemma ustr_append: "ustr a @ ustr b = ustr (a @ b)"
  by (simp add: ustr_def)

lemma cpy_parse_3000: "parse_int cpy (Some (ustr ''3000'')) = Some 3000"
  by (simp add: parse_int_def cpy_def cpy_int_of_str_def cpy_strip_def cpy_is_space_def
        split_sign_def ustr_def is_digit_def)

lemma spec_example_resolve:
  "resolve_rate_limits cpy spec_example_files None None (Some (ustr ''3000''))
       (Some (ustr ''limits.json'')) 50 (PyFloat 0.5)
   = Inr \<lparr>max_rows = Some 1000, min_interval_seconds = PyFloat 0.3,
          source = ustr ''limits:limits.json''\<rparr>"
proof -
  have a: "ustr ''limits.json'' \<noteq> []" by (simp add: ustr_def)
  have b: "parse_int cpy None = None" by (simp add: parse_int_def)
  show ?thesis
    by (simp add: resolve_rate_limits_def limits_or_env_def load_limits_def a b cpy_parse_3000
      spec_example_files_def spec_example_limits_def limits_branch_def dict_get_def py_or_def
      sorted_tiers_def py_iter_def tier_key_def sort_key_def config_from_def ustr_append)
qed

theorem resolve_rate_limits_min_interval_nonneg_witness:
  "resolve_rate_limits cpy spec_example_files None None (Some (ustr ''3000''))
       (Some (ustr ''limits.json'')) 50 (PyFloat 0.5)
   = Inr \<lparr>max_rows = Some 1000, min_interval_seconds = PyFloat 0.3,
          source = ustr ''limits:limits.json''\<rparr>
   \<and> float_ge0 (min_interval_seconds \<lparr>max_rows = Some 1000, min_interval_seconds = PyFloat 0.3,
          source = ustr ''limits:limits.json''\<rparr>)"
proof
  show r: "resolve_rate_limits cpy spec_example_files None None (Some (ustr ''3000''))
       (Some (ustr ''limits.json'')) 50 (PyFloat 0.5)
   = Inr \<lparr>max_rows = Some 1000, min_interval_seconds = PyFloat 0.3,
          source = ustr ''limits:limits.json''\<rparr>"
    by (rule spec_example_resolve)
  have d: "float_ge0 (PyFloat 0.5)" by simp
  have env: "\<forall>f. parse_float cpy None = Some f \<longrightarrow> float_ge0 f"
    by (simp add: parse_float_def)
  have ld: "load_limits spec_example_files (Some (ustr ''limits.json'')) = Inr spec_example_limits"
    by (simp add: load_limits_def spec_example_files_def ustr_def)
  have lfile: "\<forall>limits kvs v f.
        load_limits spec_example_files (Some (ustr ''limits.json'')) = Inr limits
           \<longrightarrow> JObj kvs \<in> set (limits_entries limits)
           \<longrightarrow> map_of kvs (ustr ''min_interval_seconds'') = Some v
           \<longrightarrow> py_float cpy v = Inr f \<longrightarrow> float_ge0 f"
    unfolding ld by (auto simp: limits_entries_def spec_example_limits_def)
  show "float_ge0 (min_interval_seconds \<lparr>max_rows = Some 1000,
          min_interval_seconds = PyFloat 0.3, source = ustr ''limits:limits.json''\<rparr>)"
    by (rule resolve_rate_limits_min_interval_nonneg[OF d env lfile r])
qed

theorem resolve_rate_limits_negative_interval_counterexample:
  "float_ge0 (PyFloat 0.5)
   \<and> resolve_rate_limits cpy (\<lambda>p. None) (Some (ustr ''5'')) (Some (ustr ''-1'')) None None
       50 (PyFloat 0.5)
     = Inr \<lparr>max_rows = Some 5, min_interval_seconds = PyFloat (- 1),
            source = ustr ''env:explicit''\<rparr>
   \<and> \<not> float_ge0 (PyFloat (- 1))"
proof -
  have a: "parse_int cpy (Some (ustr ''5'')) = Some 5"
    by (simp add: parse_int_def cpy_def cpy_int_of_str_def cpy_strip_def cpy_is_space_def
        split_sign_def ustr_def is_digit_def)
  have b: "parse_float cpy (Some (ustr ''-1'')) = Some (PyFloat (- 1))"
    by (simp add: parse_float_def cpy_def cpy_float_of_str_def cpy_decimal_def cpy_exponent_def
        cpy_lower_def cpy_strip_def cpy_is_space_def split_sign_def ustr_def is_digit_def)
  show ?thesis
    by (simp add: resolve_rate_limits_def a b)
qed

lemma config_from_total:
  "entry_ok B obj \<Longrightarrow> \<exists>c. config_from B obj dmr dmi path = Inr c"
  by (cases obj)
    (auto simp: entry_ok_def config_from_def dict_get_def pbind_def
          split: option.splits sum.splits)

lemma default_branch_total:
  assumes "limits_ok B limits"
  shows "\<exists>r. default_branch B limits dmr dmi path = Inr r"
proof -
  from assms obtain lk where lk: "limits = JObj lk"
    by (cases limits) (simp_all add: limits_ok_def)
  show ?thesis
  proof (cases "map_of lk (ustr ''default'')")
    case None
    then show ?thesis
      by (simp add: lk default_branch_def dict_get_def py_or_def)
  next
    case (Some d)
    show ?thesis
    proof (cases "truthy d")
      case False
      with Some show ?thesis
        by (simp add: lk default_branch_def dict_get_def py_or_def)
    next
      case True
      with assms Some lk have "entry_ok B d" by (simp add: limits_ok_def)
      from config_from_total[OF this] obtain c where "config_from B d dmr dmi path = Inr c"
        by blast
      with Some True show ?thesis
        by (simp add: lk default_branch_def dict_get_def py_or_def)
    qed
  qed
qed

lemma limits_branch_total:
  assumes ok: "limits_ok B limits"
  shows "\<exists>r. limits_branch B limits p dmr dmi path = Inr r"
proof -
  from ok obtain lk where lk: "limits = JObj lk"
    by (cases limits) (simp_all add: limits_ok_def)
  define tv where "tv = py_or (case map_of lk (ustr ''tiers'') of None \<Rightarrow> JNull | Some v \<Rightarrow> v)
                          (JList [])"
  have "\<exists>ts. tv = JList ts \<and> list_all (\<lambda>t. entry_ok B t \<and> \<not> isl (tier_key B t)) ts"
  proof (cases "map_of lk (ustr ''tiers'')")
    case None
    then show ?thesis by (simp add: tv_def py_or_def)
  next
    case (Some v)
    show ?thesis
    proof (cases "truthy v")
      case False
      with Some show ?thesis by (simp add: tv_def py_or_def)
    next
      case True
      with ok Some lk show ?thesis
        by (cases v) (simp_all add: limits_ok_def tv_def py_or_def)
    qed
  qed
  then obtain ts where tv: "tv = JList ts"
    and all: "list_all (\<lambda>t. entry_ok B t \<and> \<not> isl (tier_key B t)) ts" by blast
  have keys: "\<forall>t\<in>set ts. \<exists>n. tier_key B t = Inr n"
  proof
    fix t assume "t \<in> set ts"
    with all have "\<not> isl (tier_key B t)" by (simp add: list_all_iff)
    then show "\<exists>n. tier_key B t = Inr n" by (cases "tier_key B t") simp_all
  qed
  let ?srt = "sort_key (\<lambda>t. projr (tier_key B t)) ts"
  have st: "sorted_tiers B tv = Inr ?srt"
    unfolding tv by (rule sorted_tiers_JList[OF keys])
  let ?D = "default_branch B (JObj lk) dmr dmi path"
  have lb: "limits_branch B limits p dmr dmi path =
      (case select_tier B p ?srt None of
         None \<Rightarrow> ?D
       | Some selected \<Rightarrow>
           if truthy selected then pbind (config_from B selected dmr dmi path) (\<lambda>c. Inr (Some c))
           else ?D)"
    using st unfolding lk by (simp add: limits_branch_def dict_get_def tv_def)
  from default_branch_total[OF ok] obtain rd where rd: "?D = Inr rd"
    unfolding lk by blast
  show ?thesis
  proof (cases "select_tier B p ?srt None")
    case None
    with lb rd show ?thesis by simp
  next
    case (Some t)
    from select_tier_mem[OF Some] have "t \<in> set ts" by simp
    with all have "entry_ok B t" by (simp add: list_all_iff)
    from config_from_total[OF this] obtain c where "config_from B t dmr dmi path = Inr c"
      by blast
    with lb rd Some show ?thesis by simp
  qed
qed

lemma parse_int_None [simp]: "parse_int B None = None"
  by (simp add: parse_int_def)

lemma parse_float_None [simp]: "parse_float B None = None"
  by (simp add: parse_float_def)

lemma limits_or_env_points:
  "parse_int B points_env = None \<Longrightarrow>
   limits_or_env B fs mr mi points_env path dmr dmi = limits_or_env B fs mr mi None path dmr dmi"
  by (simp add: limits_or_env_def)

lemma limits_or_env_total:
  assumes "load_limits fs path = Inr limits"
    and "\<not> truthy limits \<or> parse_int B points_env = None \<or> limits_ok B limits"
  shows "\<exists>cfg. limits_or_env B fs mr mi points_env path dmr dmi = Inr cfg"
proof (cases "parse_int B points_env")
  case None
  with assms(1) show ?thesis by (simp add: limits_or_env_def)
next
  case (Some p)
  show ?thesis
  proof (cases "truthy limits")
    case False
    with assms(1) Some show ?thesis by (simp add: limits_or_env_def)
  next
    case True
    with assms(2) Some have "limits_ok B limits" by simp
    from limits_branch_total[OF this] obtain r where
      "limits_branch B limits p dmr dmi path = Inr r" by blast
    with assms(1) Some True show ?thesis
      by (cases r) (simp_all add: limits_or_env_def)
  qed
qed

text \<open>
  Claim C2, amended. An override or points string that does not parse (empty or not a
  number) has the effect of an unset one, whatever the limits file holds. The resolver
  returns a configuration, and raises nothing, when both overrides parse, or when the
  limits file loads and is absent, empty, not consulted because the points value is unset
  or unparsable, or well formed (\<open>limits_ok\<close>). A limits file that cannot be read or parsed
  is not caught: unless both overrides parse, the error of reading it or of \<^verbatim>\<open>json.loads\<close>
  leaves \<open>resolve_rate_limits\<close> (see also the counterexample below).
\<close>

theorem resolve_rate_limits_malformed_input:
  "(parse_int B max_rows_env = None \<longrightarrow>
      resolve_rate_limits B fs max_rows_env min_interval_env points_env limits_path dmr dmi
      = resolve_rate_limits B fs None min_interval_env points_env limits_path dmr dmi)
   \<and> (parse_float B min_interval_env = None \<longrightarrow>
      resolve_rate_limits B fs max_rows_env min_interval_env points_env limits_path dmr dmi
      = resolve_rate_limits B fs max_rows_env None points_env limits_path dmr dmi)
   \<and> (parse_int B points_env = None \<longrightarrow>
      resolve_rate_limits B fs max_rows_env min_interval_env points_env limits_path dmr dmi
      = resolve_rate_limits B fs max_rows_env min_interval_env None limits_path dmr dmi)
   \<and> ((\<exists>n f. parse_int B max_rows_env = Some n \<and> parse_float B min_interval_env = Some f)
       \<or> (\<exists>limits. load_limits fs limits_path = Inr limits
             \<and> (\<not> truthy limits \<or> parse_int B points_env = None \<or> limits_ok B limits))
      \<longrightarrow> (\<exists>cfg. resolve_rate_limits B fs max_rows_env min_interval_env points_env limits_path
                   dmr dmi = Inr cfg))
   \<and> ((parse_int B max_rows_env = None \<or> parse_float B min_interval_env = None)
       \<and> load_limits fs limits_path = Inl e
      \<longrightarrow> resolve_rate_limits B fs max_rows_env min_interval_env points_env limits_path dmr dmi
          = Inl e)"
proof (intro conjI impI)
  assume "parse_int B max_rows_env = None"
  then show "resolve_rate_limits B fs max_rows_env min_interval_env points_env limits_path dmr dmi
      = resolve_rate_limits B fs None min_interval_env points_env limits_path dmr dmi"
    by (simp add: resolve_rate_limits_def)
next
  assume "parse_float B min_interval_env = None"
  then show "resolve_rate_limits B fs max_rows_env min_interval_env points_env limits_path dmr dmi
      = resolve_rate_limits B fs max_rows_env None points_env limits_path dmr dmi"
    by (simp add: resolve_rate_limits_def)
next
  assume h: "parse_int B points_env = None"
  show "resolve_rate_limits B fs max_rows_env min_interval_env points_env limits_path dmr dmi
      = resolve_rate_limits B fs max_rows_env min_interval_env None limits_path dmr dmi"
    unfolding resolve_rate_limits_def limits_or_env_points[OF h] by (rule refl)
next
  assume h: "(\<exists>n f. parse_int B max_rows_env = Some n \<and> parse_float B min_interval_env = Some f)
       \<or> (\<exists>limits. load_limits fs limits_path = Inr limits
             \<and> (\<not> truthy limits \<or> parse_int B points_env = None \<or> limits_ok B limits))"
  show "\<exists>cfg. resolve_rate_limits B fs max_rows_env min_interval_env points_env limits_path
                   dmr dmi = Inr cfg"
  proof (cases "\<exists>n f. parse_int B max_rows_env = Some n \<and> parse_float B min_interval_env = Some f")
    case True
    then show ?thesis by (auto simp: resolve_rate_limits_def)
  next
    case False
    then have ne: "parse_int B max_rows_env = None \<or> parse_float B min_interval_env = None"
      by auto
    from False h obtain limits where "load_limits fs limits_path = Inr limits"
      and "\<not> truthy limits \<or> parse_int B points_env = None \<or> limits_ok B limits" by blast
    then show ?thesis
      unfolding resolve_not_explicit[OF ne] by (rule limits_or_env_total)
  qed
next
  assume h: "(parse_int B max_rows_env = None \<or> parse_float B min_interval_env = None)
       \<and> load_limits fs limits_path = Inl e"
  then have ne: "parse_int B max_rows_env = None \<or> parse_float B min_interval_env = None"
    by simp
  from h show "resolve_rate_limits B fs max_rows_env min_interval_env points_env limits_path
                 dmr dmi = Inl e"
    unfolding resolve_not_explicit[OF ne] by (simp add: limits_or_env_def)
qed


theorem resolve_rate_limits_malformed_input_witness:
  "resolve_rate_limits cpy (\<lambda>p. None) (Some (ustr ''abc'')) (Some []) (Some (ustr ''12x''))
       (Some (ustr ''missing.json'')) 50 (PyFloat 0.5)
   = Inr \<lparr>max_rows = Some 50, min_interval_seconds = PyFloat 0.5, source = ustr ''default''\<rparr>
   \<and> limits_ok cpy spec_example_limits
   \<and> (\<exists>cfg. resolve_rate_limits cpy spec_example_files (Some (ustr ''abc'')) None
                (Some (ustr ''3000'')) (Some (ustr ''limits.json'')) 50 (PyFloat 0.5) = Inr cfg)
   \<and> resolve_rate_limits cpy (\<lambda>p. Some (Inl OSError)) (Some (ustr ''abc'')) None None
         (Some (ustr ''limits.json'')) 50 (PyFloat 0.5) = Inl OSError"
proof -
  let ?fs = "(\<lambda>p. None) :: files" and ?path = "Some (ustr ''missing.json'')"
  have a: "parse_int cpy (Some (ustr ''abc'')) = None"
    by (simp add: parse_int_def cpy_def cpy_int_of_str_def cpy_strip_def cpy_is_space_def
        split_sign_def ustr_def is_digit_def)
  have b: "parse_float cpy (Some []) = None"
    by (simp add: parse_float_def)
  have c: "parse_int cpy (Some (ustr ''12x'')) = None"
    by (simp add: parse_int_def cpy_def cpy_int_of_str_def cpy_strip_def cpy_is_space_def
        split_sign_def ustr_def is_digit_def)
  have ld: "load_limits ?fs ?path = Inr JNull"
    by (simp add: load_limits_def)
  have "resolve_rate_limits cpy ?fs (Some (ustr ''abc'')) (Some []) (Some (ustr ''12x'')) ?path
          50 (PyFloat 0.5)
        = resolve_rate_limits cpy ?fs None (Some []) (Some (ustr ''12x'')) ?path 50 (PyFloat 0.5)"
    using resolve_rate_limits_malformed_input[of cpy "Some (ustr ''abc'')" ?fs "Some []"
        "Some (ustr ''12x'')" ?path 50 "PyFloat 0.5"] a by blast
  also have "\<dots> = resolve_rate_limits cpy ?fs None None (Some (ustr ''12x'')) ?path 50 (PyFloat 0.5)"
    using resolve_rate_limits_malformed_input[of cpy None ?fs "Some []"
        "Some (ustr ''12x'')" ?path 50 "PyFloat 0.5"] b by blast
  also have "\<dots> = resolve_rate_limits cpy ?fs None None None ?path 50 (PyFloat 0.5)"
    using resolve_rate_limits_malformed_input[of cpy None ?fs None
        "Some (ustr ''12x'')" ?path 50 "PyFloat 0.5"] c by blast
  finally have e: "resolve_rate_limits cpy ?fs (Some (ustr ''abc'')) (Some []) (Some (ustr ''12x''))
     ?path 50 (PyFloat 0.5) = resolve_rate_limits cpy ?fs None None None ?path 50 (PyFloat 0.5)" .
  have "\<exists>cfg. resolve_rate_limits cpy ?fs (Some (ustr ''abc'')) (Some []) (Some (ustr ''12x''))
     ?path 50 (PyFloat 0.5) = Inr cfg"
    using resolve_rate_limits_malformed_input[of cpy "Some (ustr ''abc'')" ?fs "Some []"
        "Some (ustr ''12x'')" ?path 50 "PyFloat 0.5"] ld by simp
  then obtain cfg where "resolve_rate_limits cpy ?fs None None None ?path 50 (PyFloat 0.5) = Inr cfg"
    using e by auto
  then have first: "resolve_rate_limits cpy ?fs (Some (ustr ''abc'')) (Some []) (Some (ustr ''12x''))
     ?path 50 (PyFloat 0.5)
     = Inr \<lparr>max_rows = Some 50, min_interval_seconds = PyFloat 0.5, source = ustr ''default''\<rparr>"
    unfolding e by (simp add: resolve_rate_limits_def limits_or_env_def ld env_or_default_def)
  have ok: "limits_ok cpy spec_example_limits"
    by (simp add: limits_ok_def spec_example_limits_def entry_ok_def tier_key_def dict_get_def)
  have ld': "load_limits spec_example_files (Some (ustr ''limits.json''))
             = Inr spec_example_limits"
    by (simp add: load_limits_def spec_example_files_def ustr_def)
  have "\<exists>cfg. resolve_rate_limits cpy spec_example_files (Some (ustr ''abc'')) None
                (Some (ustr ''3000'')) (Some (ustr ''limits.json'')) 50 (PyFloat 0.5) = Inr cfg"
    using resolve_rate_limits_malformed_input[of cpy "Some (ustr ''abc'')" spec_example_files
        None "Some (ustr ''3000'')" "Some (ustr ''limits.json'')" 50 "PyFloat 0.5"] ld' ok
    by blast
  moreover have "load_limits (\<lambda>p. Some (Inl OSError)) (Some (ustr ''limits.json''))
                 = Inl OSError"
    by (simp add: load_limits_def ustr_def)
  then have "resolve_rate_limits cpy (\<lambda>p. Some (Inl OSError)) (Some (ustr ''abc'')) None None
         (Some (ustr ''limits.json'')) 50 (PyFloat 0.5) = Inl OSError"
    using resolve_rate_limits_malformed_input[of cpy "Some (ustr ''abc'')"
        "\<lambda>p. Some (Inl OSError)" None None "Some (ustr ''limits.json'')" 50 "PyFloat 0.5" OSError] a
    by blast
  ultimately show ?thesis using first ok by blast
qed

theorem resolve_rate_limits_malformed_file_counterexample:
  "resolve_rate_limits cpy (\<lambda>p. if p = ustr ''limits.json'' then Some (Inl ValueError) else None)
       None None None (Some (ustr ''limits.json'')) 50 (PyFloat 0.5)
   = Inl ValueError"
  by (simp add: resolve_rate_limits_def limits_or_env_def load_limits_def ustr_def)

text \<open>A tier whose \<^verbatim>\<open>min_points\<close> is not a number: the sort key is computed outside the
  \<^verbatim>\<open>try\<close> of the loop, so \<^verbatim>\<open>sorted\<close> raises before the loop can skip the tier.\<close>

lemma resolve_rate_limits_unparsable_min_points:
  "resolve_rate_limits cpy
       (\<lambda>p. if p = ustr ''limits.json''
             then Some (Inr (JObj [(ustr ''tiers'', JList [
                    JObj [(ustr ''min_points'', JStr (ustr ''abc'')), (ustr ''max_rows'', JInt 10)],
                    JObj [(ustr ''min_points'', JInt 0), (ustr ''max_rows'', JInt 20)]])]))
             else None)
       None None (Some (ustr ''3000'')) (Some (ustr ''limits.json'')) 50 (PyFloat 0.5)
   = Inl ValueError"
proof -
  have a: "ustr ''limits.json'' \<noteq> []" by (simp add: ustr_def)
  have b: "int_of_str cpy (ustr ''abc'') = Inl ValueError"
    by (simp add: cpy_def cpy_int_of_str_def cpy_strip_def cpy_is_space_def
        split_sign_def ustr_def is_digit_def)
  show ?thesis
    by (simp add: resolve_rate_limits_def limits_or_env_def load_limits_def a b cpy_parse_3000
      limits_branch_def dict_get_def py_or_def sorted_tiers_def py_iter_def tier_key_def)
qed

section \<open>Properties of specs.py\<close>

lemma search_empty_store: "search B (empty_store now) keyword limit = Inr []"
  by (simp add: search_def empty_store_def Let_def)

text \<open>
  Claim C8. For a path that is unset, empty or names no file, \<open>load\<close> returns the empty
  store and raises nothing: no endpoints, metadata with the source \<^verbatim>\<open>empty\<close> and the
  time of the call as \<^verbatim>\<open>loaded_at\<close>; on that store \<open>get\<close> returns \<^verbatim>\<open>None\<close> and \<open>search\<close>
  the empty list.
\<close>

theorem load_missing_path_empty_store:
  assumes "path = None \<or> path = Some [] \<or> (\<exists>p. path = Some p \<and> fs p = None)"
  shows "load B fs now path = Inr (empty_store now)
         \<and> apis (empty_store now) = JObj []
         \<and> meta (empty_store now)
             = JObj [(ustr ''loaded_at'', JStr now), (ustr ''source'', JStr (ustr ''empty''))]
         \<and> get (empty_store now) api_name = Inr JNull
         \<and> search B (empty_store now) keyword limit = Inr []"
proof -
  have "load B fs now path = Inr (empty_store now)"
    using assms by (auto simp: load_def)
  moreover have "get (empty_store now) api_name = Inr JNull"
    by (simp add: get_def empty_store_def dict_get_def)
  ultimately show ?thesis
    by (simp add: search_empty_store) (simp add: empty_store_def)
qed

theorem load_missing_path_empty_store_witness:
  "load cpy (\<lambda>p. None) (ustr ''2024-01-01T00:00:00+00:00'') (Some (ustr ''missing.json''))
     = Inr (empty_store (ustr ''2024-01-01T00:00:00+00:00''))
   \<and> apis (empty_store (ustr ''2024-01-01T00:00:00+00:00'')) = JObj []
   \<and> get (empty_store (ustr ''2024-01-01T00:00:00+00:00'')) (ustr ''stock_basic'') = Inr JNull
   \<and> search cpy (empty_store (ustr ''2024-01-01T00:00:00+00:00'')) (ustr ''stock'') 10 = Inr []"
proof -
  have "Some (ustr ''missing.json'') = None \<or> Some (ustr ''missing.json'') = Some []
        \<or> (\<exists>p. Some (ustr ''missing.json'') = Some p \<and> (\<lambda>p. None :: (py_error + json) option) p = None)"
    by simp
  from load_missing_path_empty_store[OF this, of cpy "ustr ''2024-01-01T00:00:00+00:00''"
      "ustr ''stock_basic''" "ustr ''stock''" 10]
  show ?thesis by simp
qed

text \<open>
  Claim C3. With an absent (or empty) spec \<open>validate_params\<close> returns \<^verbatim>\<open>ok = True\<close> and two
  empty lists. Whenever it returns, \<^verbatim>\<open>ok\<close> is true exactly when \<^verbatim>\<open>missing_required\<close> is
  empty, so unknown parameters never change it, and \<^verbatim>\<open>unknown_params\<close> is sorted and holds
  the supplied names that are not declared properties, or nothing when the spec declares
  no property.
\<close>

theorem validate_params_ok_iff:
  "(\<not> truthy spec \<longrightarrow>
      validate_params B spec params
      = Inr \<lparr>ok = True, missing_required = [], unknown_params = []\<rparr>)
   \<and> (\<forall>r. validate_params B spec params = Inr r \<longrightarrow>
         ok r = (missing_required r = [])
         \<and> sorted (unknown_params r)
         \<and> set (unknown_params r)
             = (if declared_properties spec = [] then {}
                else fst ` set params - set (declared_properties spec)))"
proof (intro conjI impI allI)
  assume "\<not> truthy spec"
  then show "validate_params B spec params
      = Inr \<lparr>ok = True, missing_required = [], unknown_params = []\<rparr>"
    by (simp add: validate_params_def)
next
  fix r assume r: "validate_params B spec params = Inr r"
  show "ok r = (missing_required r = [])"
    using r by (auto simp: validate_params_def Let_def pbind_def split: if_splits sum.splits)
  show "sorted (unknown_params r)"
    using r by (auto simp: validate_params_def Let_def pbind_def split: if_splits sum.splits)
  show "set (unknown_params r)
             = (if declared_properties spec = [] then {}
                else fst ` set params - set (declared_properties spec))"
  proof (cases "truthy spec")
    case False
    with r show ?thesis
      by (cases spec) (auto simp: validate_params_def declared_properties_def)
  next
    case True
    from r True obtain sk where sk: "spec = JObj sk"
      by (cases spec) (auto simp: validate_params_def dict_get_def)
    define i where "i = py_or (case map_of sk (ustr ''input'') of None \<Rightarrow> JNull | Some v \<Rightarrow> v) (JObj [])"
    from r True sk obtain ik where ik: "i = JObj ik"
      by (cases i) (auto simp: validate_params_def dict_get_def Let_def i_def)
    define p where "p = py_or (case map_of ik (ustr ''properties'') of None \<Rightarrow> JNull | Some v \<Rightarrow> v) (JObj [])"
    from r True sk ik obtain pk where pk: "p = JObj pk"
      by (cases p) (auto simp: validate_params_def dict_get_def Let_def i_def[symmetric] p_def
          dict_keys_def pbind_def split: sum.splits)
    have u: "unknown_params r = sort (filter (\<lambda>k. map fst pk \<noteq> [] \<and> k \<notin> set (map fst pk)) (map fst params))"
      using r True sk ik pk
      by (auto simp: validate_params_def dict_get_def Let_def i_def[symmetric] p_def[symmetric]
          dict_keys_def pbind_def split: sum.splits)
    have d: "declared_properties spec = map fst pk"
      using sk ik pk unfolding i_def p_def
      by (auto simp: declared_properties_def py_or_def split: option.splits json.splits if_splits)
    show ?thesis
      unfolding u d by auto
  qed
qed

lemma ustr_eq_Nil [simp]: "ustr s = [] \<longleftrightarrow> s = []" "[] = ustr s \<longleftrightarrow> s = []"
  by (auto simp: ustr_def)

lemma spec_example_validate_bogus:
  "validate_params cpy spec_example_endpoint
       [(ustr ''ts_code'', JStr (ustr ''x'')), (ustr ''bogus'', JStr (ustr ''y''))]
   = Inr \<lparr>ok = True, missing_required = [], unknown_params = [ustr ''bogus'']\<rparr>"
  by (simp add: validate_params_def spec_example_endpoint_def dict_get_def py_or_def py_set_def
      py_iter_def py_sorted_def dict_keys_def is_missing_def)

theorem validate_params_ok_iff_witness:
  "validate_params cpy JNull [(ustr ''ts_code'', JStr (ustr ''x''))]
     = Inr \<lparr>ok = True, missing_required = [], unknown_params = []\<rparr>
   \<and> validate_params cpy spec_example_endpoint
       [(ustr ''ts_code'', JStr (ustr ''x'')), (ustr ''bogus'', JStr (ustr ''y''))]
     = Inr \<lparr>ok = True, missing_required = [], unknown_params = [ustr ''bogus'']\<rparr>
   \<and> set [ustr ''bogus'']
     = fst ` set [(ustr ''ts_code'', JStr (ustr ''x'')), (ustr ''bogus'', JStr (ustr ''y''))]
       - set (declared_properties spec_example_endpoint)"
proof -
  let ?params = "[(ustr ''ts_code'', JStr (ustr ''x'')), (ustr ''bogus'', JStr (ustr ''y''))]"
  let ?r = "\<lparr>ok = True, missing_required = [], unknown_params = [ustr ''bogus'']\<rparr>"
  have a: "validate_params cpy JNull [(ustr ''ts_code'', JStr (ustr ''x''))]
     = Inr \<lparr>ok = True, missing_required = [], unknown_params = []\<rparr>"
    using validate_params_ok_iff[of JNull cpy "[(ustr ''ts_code'', JStr (ustr ''x''))]"] by simp
  have d: "declared_properties spec_example_endpoint = [ustr ''ts_code'', ustr ''start_date'']"
    by (simp add: declared_properties_def spec_example_endpoint_def)
  have "set (unknown_params ?r)
        = (if declared_properties spec_example_endpoint = [] then {}
           else fst ` set ?params - set (declared_properties spec_example_endpoint))"
    using validate_params_ok_iff[of spec_example_endpoint cpy ?params]
      spec_example_validate_bogus by blast
  then have "set [ustr ''bogus''] = fst ` set ?params - set (declared_properties spec_example_endpoint)"
    by (simp add: d)
  with a spec_example_validate_bogus show ?thesis by blast
qed

lemma py_set_strs: "py_set B (JList (map JStr names)) = Inr (map JStr (remdups names))"
proof -
  have "list_all hashable (map JStr names)" "list_all is_str (map JStr names)"
    by (simp_all add: list_all_iff)
  moreover have "remdups (map JStr names) = map JStr (remdups names)"
    by (induction names) auto
  ultimately show ?thesis
    by (simp add: py_set_def py_iter_def)
qed

lemma py_sorted_strs: "py_sorted B (map JStr names) = Inr (map JStr (sort names))"
  by (simp add: py_sorted_def list_all_iff comp_def)

lemma filter_is_missing_strs:
  "filter (is_missing params) (map JStr names)
   = map JStr (filter (\<lambda>k. map_of params k = None \<or> map_of params k = Some JNull
                              \<or> map_of params k = Some (JStr [])) names)"
  by (induction names) (auto simp: is_missing_def split: option.splits)

text \<open>
  Claim C10. For a spec whose input schema lists the required names (and whose
  \<^verbatim>\<open>properties\<close> is absent, empty or an object), \<open>validate_params\<close> returns, and a required
  name is in \<^verbatim>\<open>missing_required\<close> exactly when it is no key of \<open>params\<close> or its value is
  \<^verbatim>\<open>None\<close> or the empty string; any other value, such as 0, \<^verbatim>\<open>False\<close> or an empty list,
  counts as provided (see the witness).
\<close>

theorem validate_params_missing_required:
  assumes inp: "map_of sk (ustr ''input'') = Some (JObj ik)"
    and req: "map_of ik (ustr ''required'') = Some (JList (map JStr names))"
    and props: "case map_of ik (ustr ''properties'') of
                  None \<Rightarrow> True
                | Some p \<Rightarrow> \<not> truthy p \<or> (case p of JObj pk \<Rightarrow> True | _ \<Rightarrow> False)"
  shows "\<exists>r. validate_params B (JObj sk) params = Inr r
           \<and> missing_required r
               = map JStr (sort (remdups (filter
                   (\<lambda>k. map_of params k = None \<or> map_of params k = Some JNull
                         \<or> map_of params k = Some (JStr [])) names)))
           \<and> (\<forall>k. JStr k \<in> set (missing_required r) \<longleftrightarrow>
                  k \<in> set names
                  \<and> (map_of params k = None \<or> map_of params k = Some JNull
                      \<or> map_of params k = Some (JStr [])))"
proof -
  let ?P = "\<lambda>k. map_of params k = None \<or> map_of params k = Some JNull
                \<or> map_of params k = Some (JStr [])"
  from inp have sk: "sk \<noteq> []" by auto
  from req have ik: "ik \<noteq> []" by auto
  have i: "py_or (JObj ik) (JObj []) = JObj ik"
    using ik by (simp add: py_or_def)
  have r: "py_set B (py_or (JList (map JStr names)) (JList [])) = Inr (map JStr (remdups names))"
    using py_set_strs[of B names] py_set_strs[of B "[]"] by (cases names) (simp_all add: py_or_def)
  obtain pk where p: "dict_keys (py_or (case map_of ik (ustr ''properties'') of
                         None \<Rightarrow> JNull | Some v \<Rightarrow> v) (JObj [])) = Inr pk"
  proof (cases "map_of ik (ustr ''properties'')")
    case None
    then show ?thesis using that by (simp add: dict_keys_def py_or_def)
  next
    case (Some v)
    with props show ?thesis using that
      by (cases v; cases "truthy v") (simp_all add: dict_keys_def py_or_def)
  qed
  have f: "filter (is_missing params) (map JStr (remdups names)) = map JStr (filter ?P (remdups names))"
    by (rule filter_is_missing_strs)
  have v: "validate_params B (JObj sk) params
     = Inr \<lparr>ok = (map JStr (sort (filter ?P (remdups names))) = []),
            missing_required = map JStr (sort (filter ?P (remdups names))),
            unknown_params = sort (filter (\<lambda>k. pk \<noteq> [] \<and> k \<notin> set pk) (map fst params))\<rparr>"
    using sk by (simp add: validate_params_def dict_get_def inp req i r p f py_sorted_strs)
  have e: "filter ?P (remdups names) = remdups (filter ?P names)"
    by (simp add: remdups_filter)
  show ?thesis
    unfolding v e by (auto simp: inj_image_mem_iff inj_def)
qed

theorem validate_params_missing_required_witness:
  "(\<exists>r. validate_params cpy spec_example_endpoint [(ustr ''start_date'', JStr (ustr ''20200101''))]
         = Inr r \<and> missing_required r = [JStr (ustr ''ts_code'')])
   \<and> (\<exists>r. validate_params cpy spec_example_endpoint [(ustr ''ts_code'', JStr [])] = Inr r
         \<and> missing_required r = [JStr (ustr ''ts_code'')])
   \<and> (\<exists>r. validate_params cpy spec_example_endpoint [(ustr ''ts_code'', JInt 0)] = Inr r
         \<and> missing_required r = [])
   \<and> (\<exists>r. validate_params cpy spec_example_endpoint [(ustr ''ts_code'', JBool False)] = Inr r
         \<and> missing_required r = [])
   \<and> (\<exists>r. validate_params cpy spec_example_endpoint [(ustr ''ts_code'', JList [])] = Inr r
         \<and> missing_required r = [])"
proof -
  let ?ik = "[(ustr ''properties'',
                   JObj [(ustr ''ts_code'', JObj [(ustr ''type'', JStr (ustr ''string''))]),
                         (ustr ''start_date'', JObj [(ustr ''type'', JStr (ustr ''string''))])]),
                  (ustr ''required'', JList [JStr (ustr ''ts_code'')])]"
  let ?sk = "[(ustr ''name'', JStr (ustr ''daily'')), (ustr ''input'', JObj ?ik)]"
  have s: "spec_example_endpoint = JObj ?sk"
    by (simp add: spec_example_endpoint_def)
  have inp: "map_of ?sk (ustr ''input'') = Some (JObj ?ik)" by simp
  have req: "map_of ?ik (ustr ''required'') = Some (JList (map JStr [ustr ''ts_code'']))" by simp
  have props: "case map_of ?ik (ustr ''properties'') of
                  None \<Rightarrow> True
                | Some p \<Rightarrow> \<not> truthy p \<or> (case p of JObj pk \<Rightarrow> True | _ \<Rightarrow> False)"
    by simp
  note t = validate_params_missing_required[OF inp req props, of cpy, folded s]
  have 1: "\<exists>r. validate_params cpy spec_example_endpoint
               [(ustr ''start_date'', JStr (ustr ''20200101''))] = Inr r
             \<and> missing_required r = [JStr (ustr ''ts_code'')]"
    using t[of "[(ustr ''start_date'', JStr (ustr ''20200101''))]"] by auto
  have 2: "\<exists>r. validate_params cpy spec_example_endpoint [(ustr ''ts_code'', JStr [])] = Inr r
             \<and> missing_required r = [JStr (ustr ''ts_code'')]"
    using t[of "[(ustr ''ts_code'', JStr [])]"] by auto
  have 3: "\<exists>r. validate_params cpy spec_example_endpoint [(ustr ''ts_code'', JInt 0)] = Inr r
             \<and> missing_required r = []"
    using t[of "[(ustr ''ts_code'', JInt 0)]"] by auto
  have 4: "\<exists>r. validate_params cpy spec_example_endpoint [(ustr ''ts_code'', JBool False)] = Inr r
             \<and> missing_required r = []"
    using t[of "[(ustr ''ts_code'', JBool False)]"] by auto
  have 5: "\<exists>r. validate_params cpy spec_example_endpoint [(ustr ''ts_code'', JList [])] = Inr r
             \<and> missing_required r = []"
    using t[of "[(ustr ''ts_code'', JList [])]"] by auto
  from 1 2 3 4 5 show ?thesis by blast
qed






lemma cpy_fields [simp]:
  "is_space cpy = cpy_is_space" "str_lower cpy = cpy_lower" "str_of cpy = cpy_str_of"
  by (simp_all add: cpy_def)












section \<open>Properties of scrape.py\<close>

lemma named_tokens_no_date_time:
  "\<forall>t \<in> {ustr ''str'', ustr ''string'', ustr ''text'', ustr ''varchar'', ustr ''int'',
          ustr ''integer'', ustr ''long'', ustr ''float'', ustr ''double'', ustr ''number'',
          ustr ''decimal'', ustr ''bool'', ustr ''boolean'', []}.
     \<not> sublist (ustr ''date'') t \<and> \<not> sublist (ustr ''time'') t"
  by (simp add: ustr_def sublist_code(3))

lemma datetime_has_date: "sublist (ustr ''datetime'') t \<Longrightarrow> sublist (ustr ''date'') t"
proof -
  have "sublist (ustr ''date'') (ustr ''datetime'')"
    by (simp add: ustr_def sublist_code(3))
  then show "sublist (ustr ''datetime'') t \<Longrightarrow> sublist (ustr ''date'') t"
    by (rule sublist_order.order_trans)
qed


text \<open>
  Claim C5, amended. With \<open>t\<close> the type text trimmed and lower-cased: the empty token and
  \<^verbatim>\<open>str\<close>, \<^verbatim>\<open>string\<close>, \<^verbatim>\<open>text\<close>, \<^verbatim>\<open>varchar\<close> give type \<^verbatim>\<open>string\<close>; \<^verbatim>\<open>int\<close>, \<^verbatim>\<open>integer\<close>, \<^verbatim>\<open>long\<close>
  give \<^verbatim>\<open>integer\<close>; \<^verbatim>\<open>float\<close>, \<^verbatim>\<open>double\<close>, \<^verbatim>\<open>number\<close>, \<^verbatim>\<open>decimal\<close> give \<^verbatim>\<open>number\<close>; \<^verbatim>\<open>bool\<close>,
  \<^verbatim>\<open>boolean\<close> give \<^verbatim>\<open>boolean\<close>; a token that contains the letters \<^verbatim>\<open>time\<close> gives a string
  with format \<^verbatim>\<open>date-time\<close>, one that contains \<^verbatim>\<open>date\<close> and not \<^verbatim>\<open>time\<close> a string with
  format \<^verbatim>\<open>date\<close>; any other token gives a string with \<open>t\<close> itself as \<^verbatim>\<open>ts_type\<close>. A token
  written in Chinese characters holds neither \<^verbatim>\<open>date\<close> nor \<^verbatim>\<open>time\<close>, so it is of the last
  kind (see the witness and the counterexample).
\<close>

theorem coerce_type_cases:
  assumes t: "t = str_lower B (strip B (case type_text of None \<Rightarrow> [] | Some s \<Rightarrow> s))"
  shows "(t = [] \<longrightarrow> coerce_type B type_text = JObj [(ustr ''type'', JStr (ustr ''string''))])
    \<and> (t \<in> {ustr ''str'', ustr ''string'', ustr ''text'', ustr ''varchar''} \<longrightarrow>
          coerce_type B type_text = JObj [(ustr ''type'', JStr (ustr ''string''))])
    \<and> (t \<in> {ustr ''int'', ustr ''integer'', ustr ''long''} \<longrightarrow>
          coerce_type B type_text = JObj [(ustr ''type'', JStr (ustr ''integer''))])
    \<and> (t \<in> {ustr ''float'', ustr ''double'', ustr ''number'', ustr ''decimal''} \<longrightarrow>
          coerce_type B type_text = JObj [(ustr ''type'', JStr (ustr ''number''))])
    \<and> (t \<in> {ustr ''bool'', ustr ''boolean''} \<longrightarrow>
          coerce_type B type_text = JObj [(ustr ''type'', JStr (ustr ''boolean''))])
    \<and> (sublist (ustr ''time'') t \<longrightarrow>
          coerce_type B type_text
          = JObj [(ustr ''type'', JStr (ustr ''string'')),
                  (ustr ''format'', JStr (ustr ''date-time''))])
    \<and> (sublist (ustr ''date'') t \<and> \<not> sublist (ustr ''time'') t \<longrightarrow>
          coerce_type B type_text
          = JObj [(ustr ''type'', JStr (ustr ''string'')), (ustr ''format'', JStr (ustr ''date''))])
    \<and> (t \<noteq> [] \<and> t \<notin> {ustr ''str'', ustr ''string'', ustr ''text'', ustr ''varchar'',
                          ustr ''int'', ustr ''integer'', ustr ''long'', ustr ''float'',
                          ustr ''double'', ustr ''number'', ustr ''decimal'', ustr ''bool'',
                          ustr ''boolean''}
         \<and> \<not> sublist (ustr ''date'') t \<and> \<not> sublist (ustr ''time'') t \<longrightarrow>
          coerce_type B type_text
          = JObj [(ustr ''type'', JStr (ustr ''string'')), (ustr ''ts_type'', JStr t)])"
proof -
  have c: "coerce_type B type_text =
     (if t = [] then JObj [(ustr ''type'', JStr (ustr ''string''))]
      else if t \<in> {ustr ''str'', ustr ''string'', ustr ''text'', ustr ''varchar''}
        then JObj [(ustr ''type'', JStr (ustr ''string''))]
      else if t \<in> {ustr ''int'', ustr ''integer'', ustr ''long''}
        then JObj [(ustr ''type'', JStr (ustr ''integer''))]
      else if t \<in> {ustr ''float'', ustr ''double'', ustr ''number'', ustr ''decimal''}
        then JObj [(ustr ''type'', JStr (ustr ''number''))]
      else if t \<in> {ustr ''bool'', ustr ''boolean''}
        then JObj [(ustr ''type'', JStr (ustr ''boolean''))]
      else if sublist (ustr ''date'') t \<or> sublist (ustr ''datetime'') t \<or> sublist (ustr ''time'') t
        then JObj [(ustr ''type'', JStr (ustr ''string'')),
                   (ustr ''format'',
                    JStr (if sublist (ustr ''time'') t then ustr ''date-time'' else ustr ''date''))]
      else JObj [(ustr ''type'', JStr (ustr ''string'')), (ustr ''ts_type'', JStr t)])"
    unfolding coerce_type_def t Let_def by (rule refl)
  have n: "sublist (ustr ''date'') t \<or> sublist (ustr ''time'') t \<Longrightarrow>
     t \<noteq> [] \<and> t \<notin> {ustr ''str'', ustr ''string'', ustr ''text'', ustr ''varchar'', ustr ''int'',
          ustr ''integer'', ustr ''long'', ustr ''float'', ustr ''double'', ustr ''number'',
          ustr ''decimal'', ustr ''bool'', ustr ''boolean''}"
    using named_tokens_no_date_time by blast
  have d: "sublist (ustr ''datetime'') t \<Longrightarrow> sublist (ustr ''date'') t"
    by (rule datetime_has_date)
  show ?thesis
  proof (intro conjI impI)
    assume "t = []"
    then show "coerce_type B type_text = JObj [(ustr ''type'', JStr (ustr ''string''))]"
      by (simp add: c)
  next
    assume "t \<in> {ustr ''str'', ustr ''string'', ustr ''text'', ustr ''varchar''}"
    then show "coerce_type B type_text = JObj [(ustr ''type'', JStr (ustr ''string''))]"
      by (simp add: c)
  next
    assume "t \<in> {ustr ''int'', ustr ''integer'', ustr ''long''}"
    then show "coerce_type B type_text = JObj [(ustr ''type'', JStr (ustr ''integer''))]"
      unfolding c by (elim insertE emptyE) simp_all
  next
    assume "t \<in> {ustr ''float'', ustr ''double'', ustr ''number'', ustr ''decimal''}"
    then show "coerce_type B type_text = JObj [(ustr ''type'', JStr (ustr ''number''))]"
      unfolding c by (elim insertE emptyE) simp_all
  next
    assume "t \<in> {ustr ''bool'', ustr ''boolean''}"
    then show "coerce_type B type_text = JObj [(ustr ''type'', JStr (ustr ''boolean''))]"
      unfolding c by (elim insertE emptyE) simp_all
  next
    assume a: "sublist (ustr ''time'') t"
    with n have "t \<noteq> [] \<and> t \<notin> {ustr ''str'', ustr ''string'', ustr ''text'', ustr ''varchar'',
          ustr ''int'', ustr ''integer'', ustr ''long'', ustr ''float'', ustr ''double'',
          ustr ''number'', ustr ''decimal'', ustr ''bool'', ustr ''boolean''}" by blast
    with a show "coerce_type B type_text
          = JObj [(ustr ''type'', JStr (ustr ''string'')),
                  (ustr ''format'', JStr (ustr ''date-time''))]"
      unfolding c by simp
  next
    assume a: "sublist (ustr ''date'') t \<and> \<not> sublist (ustr ''time'') t"
    with n have "t \<noteq> [] \<and> t \<notin> {ustr ''str'', ustr ''string'', ustr ''text'', ustr ''varchar'',
          ustr ''int'', ustr ''integer'', ustr ''long'', ustr ''float'', ustr ''double'',
          ustr ''number'', ustr ''decimal'', ustr ''bool'', ustr ''boolean''}" by blast
    with a show "coerce_type B type_text
          = JObj [(ustr ''type'', JStr (ustr ''string'')), (ustr ''format'', JStr (ustr ''date''))]"
      unfolding c by simp
  next
    assume a: "t \<noteq> [] \<and> t \<notin> {ustr ''str'', ustr ''string'', ustr ''text'', ustr ''varchar'',
                          ustr ''int'', ustr ''integer'', ustr ''long'', ustr ''float'',
                          ustr ''double'', ustr ''number'', ustr ''decimal'', ustr ''bool'',
                          ustr ''boolean''}
         \<and> \<not> sublist (ustr ''date'') t \<and> \<not> sublist (ustr ''time'') t"
    then have "\<not> sublist (ustr ''datetime'') t" using d by blast
    with a show "coerce_type B type_text
          = JObj [(ustr ''type'', JStr (ustr ''string'')), (ustr ''ts_type'', JStr t)]"
      unfolding c by simp
  qed
qed

lemmas eval_lower = strip_def ustr_def cpy_is_space_def cpy_lower_def

theorem coerce_type_cases_witness:
  "coerce_type cpy None = JObj [(ustr ''type'', JStr (ustr ''string''))]
   \<and> coerce_type cpy (Some (ustr ''varchar'')) = JObj [(ustr ''type'', JStr (ustr ''string''))]
   \<and> coerce_type cpy (Some (ustr '' Integer ''))
       = JObj [(ustr ''type'', JStr (ustr ''integer''))]
   \<and> coerce_type cpy (Some (ustr ''Double'')) = JObj [(ustr ''type'', JStr (ustr ''number''))]
   \<and> coerce_type cpy (Some (ustr ''bool'')) = JObj [(ustr ''type'', JStr (ustr ''boolean''))]
   \<and> coerce_type cpy (Some (ustr ''DateTime''))
       = JObj [(ustr ''type'', JStr (ustr ''string'')),
               (ustr ''format'', JStr (ustr ''date-time''))]
   \<and> coerce_type cpy (Some (ustr ''trade_date''))
       = JObj [(ustr ''type'', JStr (ustr ''string'')), (ustr ''format'', JStr (ustr ''date''))]
   \<and> coerce_type cpy (Some (ustr ''JSON''))
       = JObj [(ustr ''type'', JStr (ustr ''string'')), (ustr ''ts_type'', JStr (ustr ''json''))]
   \<and> coerce_type cpy (Some [0x5B57, 0x7B26, 0x4E32])
       = JObj [(ustr ''type'', JStr (ustr ''string'')),
               (ustr ''ts_type'', JStr [0x5B57, 0x7B26, 0x4E32])]"
proof (intro conjI)
  have "[] = str_lower cpy (strip cpy (case None of None \<Rightarrow> [] | Some s \<Rightarrow> s))"
    by (simp add: eval_lower)
  from coerce_type_cases[OF this]
  show "coerce_type cpy None = JObj [(ustr ''type'', JStr (ustr ''string''))]" by blast
next
  have "ustr ''varchar''
        = str_lower cpy (strip cpy (case Some (ustr ''varchar'') of None \<Rightarrow> [] | Some s \<Rightarrow> s))"
    by (simp add: eval_lower)
  from coerce_type_cases[OF this]
  show "coerce_type cpy (Some (ustr ''varchar'')) = JObj [(ustr ''type'', JStr (ustr ''string''))]"
    by simp
next
  have "ustr ''integer''
        = str_lower cpy (strip cpy (case Some (ustr '' Integer '') of None \<Rightarrow> [] | Some s \<Rightarrow> s))"
    by (simp add: eval_lower)
  from coerce_type_cases[OF this]
  show "coerce_type cpy (Some (ustr '' Integer ''))
       = JObj [(ustr ''type'', JStr (ustr ''integer''))]"
    by simp
next
  have "ustr ''double''
        = str_lower cpy (strip cpy (case Some (ustr ''Double'') of None \<Rightarrow> [] | Some s \<Rightarrow> s))"
    by (simp add: eval_lower)
  from coerce_type_cases[OF this]
  show "coerce_type cpy (Some (ustr ''Double'')) = JObj [(ustr ''type'', JStr (ustr ''number''))]"
    by simp
next
  have "ustr ''bool''
        = str_lower cpy (strip cpy (case Some (ustr ''bool'') of None \<Rightarrow> [] | Some s \<Rightarrow> s))"
    by (simp add: eval_lower)
  from coerce_type_cases[OF this]
  show "coerce_type cpy (Some (ustr ''bool'')) = JObj [(ustr ''type'', JStr (ustr ''boolean''))]"
    by simp
next
  have t: "ustr ''datetime''
        = str_lower cpy (strip cpy (case Some (ustr ''DateTime'') of None \<Rightarrow> [] | Some s \<Rightarrow> s))"
    by (simp add: eval_lower)
  have "sublist (ustr ''time'') (ustr ''datetime'')"
    by (simp add: ustr_def sublist_code(3))
  with coerce_type_cases[OF t]
  show "coerce_type cpy (Some (ustr ''DateTime''))
       = JObj [(ustr ''type'', JStr (ustr ''string'')),
               (ustr ''format'', JStr (ustr ''date-time''))]"
    by blast
next
  have t: "ustr ''trade_date''
        = str_lower cpy (strip cpy (case Some (ustr ''trade_date'') of None \<Rightarrow> [] | Some s \<Rightarrow> s))"
    by (simp add: eval_lower)
  have "sublist (ustr ''date'') (ustr ''trade_date'') \<and> \<not> sublist (ustr ''time'') (ustr ''trade_date'')"
    by (simp add: ustr_def sublist_code(3))
  with coerce_type_cases[OF t]
  show "coerce_type cpy (Some (ustr ''trade_date''))
       = JObj [(ustr ''type'', JStr (ustr ''string'')), (ustr ''format'', JStr (ustr ''date''))]"
    by blast
next
  have t: "ustr ''json''
        = str_lower cpy (strip cpy (case Some (ustr ''JSON'') of None \<Rightarrow> [] | Some s \<Rightarrow> s))"
    by (simp add: eval_lower)
  have "ustr ''json'' \<noteq> [] \<and> ustr ''json'' \<notin> {ustr ''str'', ustr ''string'', ustr ''text'',
          ustr ''varchar'', ustr ''int'', ustr ''integer'', ustr ''long'', ustr ''float'',
          ustr ''double'', ustr ''number'', ustr ''decimal'', ustr ''bool'', ustr ''boolean''}
        \<and> \<not> sublist (ustr ''date'') (ustr ''json'') \<and> \<not> sublist (ustr ''time'') (ustr ''json'')"
    by (simp add: ustr_def sublist_code(3))
  with coerce_type_cases[OF t]
  show "coerce_type cpy (Some (ustr ''JSON''))
       = JObj [(ustr ''type'', JStr (ustr ''string'')), (ustr ''ts_type'', JStr (ustr ''json''))]"
    by blast
next
  let ?s = "[0x5B57, 0x7B26, 0x4E32] :: pystr"
  have t: "?s = str_lower cpy (strip cpy (case Some ?s of None \<Rightarrow> [] | Some s \<Rightarrow> s))"
    by (simp add: eval_lower)
  have "?s \<noteq> [] \<and> ?s \<notin> {ustr ''str'', ustr ''string'', ustr ''text'',
          ustr ''varchar'', ustr ''int'', ustr ''integer'', ustr ''long'', ustr ''float'',
          ustr ''double'', ustr ''number'', ustr ''decimal'', ustr ''bool'', ustr ''boolean''}
        \<and> \<not> sublist (ustr ''date'') ?s \<and> \<not> sublist (ustr ''time'') ?s"
    by (simp add: ustr_def sublist_code(3))
  with coerce_type_cases[OF t]
  show "coerce_type cpy (Some ?s)
       = JObj [(ustr ''type'', JStr (ustr ''string'')), (ustr ''ts_type'', JStr ?s)]"
    by blast
qed

theorem coerce_type_date_example_counterexample:
  "coerce_type cpy (Some (ustr ''YYYYMMDD'' @ [0x683C, 0x5F0F, 0x7684, 0x65E5, 0x671F]))
     = JObj [(ustr ''type'', JStr (ustr ''string'')),
             (ustr ''ts_type'', JStr (ustr ''yyyymmdd'' @ [0x683C, 0x5F0F, 0x7684, 0x65E5, 0x671F]))]
   \<and> coerce_type cpy (Some (ustr ''YYYYMMDD'' @ [0x683C, 0x5F0F, 0x7684, 0x65E5, 0x671F]))
     \<noteq> JObj [(ustr ''type'', JStr (ustr ''string'')), (ustr ''format'', JStr (ustr ''date''))]"
  by (simp add: coerce_type_def eval_lower sublist_code(3))

text \<open>
  Claim C6 on the code. The specification expects 5000 for a page that says
  U+9650 U+91CF, \<^verbatim>\<open>5000\<close>, U+6761 (a limit phrase, a number and a unit). The patterns of the
  source look for a backslash and letters d where the digits should be, so nothing
  matches and the result is \<^verbatim>\<open>None\<close>.
\<close>

theorem extract_max_rows_limit_phrase:
  "extract_max_rows cpy [0x9650, 0x91CF, 53, 48, 48, 48, 0x6761] = Inr None"
  by (simp add: extract_max_rows_def match_at_def pattern1_def pattern2_def limit_phrases_def
      units_def)

lemma group_starts_with_backslash:
  assumes "r2 \<in> set (seq_ends [Lit [92], Rep 100 1 (Some 7)] r1)"
  shows "\<exists>s. take (length r1 - length r2) r1 = 92 # s"
proof -
  from assms obtain r1' where r1: "r1 = 92 # r1'"
    by (cases r1) (auto split: if_splits)
  define k where "k = length (takeWhile (\<lambda>x. x = 100) (take 7 r1'))"
  have "k \<le> length (take 7 r1')"
    unfolding k_def by (rule length_takeWhile_le)
  then have kl: "k \<le> length r1'" by simp
  from assms r1 obtain j where j: "1 \<le> j" "j \<le> k" and r2: "r2 = drop j r1'"
    by (auto simp: k_def Let_def)
  from j kl have "length r1 - length r2 = Suc j"
    by (simp add: r1 r2)
  then show ?thesis by (simp add: r1)
qed

lemma match_at_group:
  assumes m: "match_at pat inp = Some (g, r)"
    and grp: "in_group pat = [Lit [92], Rep 100 1 (Some 7)]"
  shows "\<exists>s. g = 92 # s"
proof -
  let ?ms = "concat (map (\<lambda>r1.
             concat (map (\<lambda>r2.
               map (\<lambda>r3. (take (length r1 - length r2) r1, r3))
                 (seq_ends (after_group pat) r2))
               (seq_ends (in_group pat) r1)))
             (seq_ends (before_group pat) inp))"
  from m obtain ms where "?ms = (g, r) # ms"
    by (auto simp: match_at_def split: list.splits)
  then have "(g, r) \<in> set ?ms"
    by (metis list.set_intros(1))
  then obtain r1 r2 where "r2 \<in> set (seq_ends (in_group pat) r1)"
    and "g = take (length r1 - length r2) r1"
    by auto
  then show ?thesis
    using group_starts_with_backslash[of r2 r1] by (simp add: grp)
qed

lemma findall_groups:
  "g \<in> set (findall pat inp) \<Longrightarrow> \<exists>inp' r. match_at pat inp' = Some (g, r)"
proof (induction "length inp" arbitrary: inp rule: less_induct)
  case less
  note u = findall.simps[of pat inp]
  show ?case
  proof (cases "match_at pat inp")
    case None
    from less.prems have "g \<in> set (case inp of [] \<Rightarrow> [] | _ # cs \<Rightarrow> findall pat cs)"
      unfolding u None by (simp del: findall.simps)
    then obtain c cs where "inp = c # cs" and "g \<in> set (findall pat cs)"
      by (cases inp) (simp_all del: findall.simps)
    then show ?thesis
      using less.hyps[of cs] by simp
  next
    case (Some m)
    obtain g' rest where m: "m = (g', rest)" by (cases m)
    show ?thesis
    proof (cases "g = g'")
      case True
      with Some m show ?thesis by blast
    next
      case False
      show ?thesis
      proof (cases "length rest < length inp")
        case True
        from less.prems have "g \<in> set (g' # findall pat rest)"
          unfolding u Some m using True by (simp del: findall.simps)
        with False have "g \<in> set (findall pat rest)" by simp
        then show ?thesis
          using less.hyps[of rest] True by simp
      next
        case nl: False
        from less.prems
        have "g \<in> set (case inp of [] \<Rightarrow> [g'] | _ # cs \<Rightarrow> g' # findall pat cs)"
          unfolding u Some m using nl by (simp del: findall.simps)
        with False obtain c cs where "inp = c # cs" and "g \<in> set (findall pat cs)"
          by (cases inp) (simp_all del: findall.simps)
        then show ?thesis
          using less.hyps[of cs] by simp
      qed
    qed
  qed
qed

lemma map_err_all_fail:
  "\<forall>x\<in>set xs. isl (f x) \<Longrightarrow> map_err f xs = Inr ys \<Longrightarrow> xs = [] \<and> ys = []"
  by (cases xs) (auto split: sum.splits)

lemma numbers_of_pattern:
  assumes i: "\<forall>s. isl (int_of_str B (92 # s))"
    and grp: "in_group pat = [Lit [92], Rep 100 1 (Some 7)]"
    and ns: "map_err (int_of_str B) (findall pat text) = Inr ns"
  shows "ns = []"
proof -
  have "\<forall>g\<in>set (findall pat text). isl (int_of_str B g)"
  proof
    fix g assume "g \<in> set (findall pat text)"
    from findall_groups[OF this] obtain inp' r where "match_at pat inp' = Some (g, r)" by blast
    from match_at_group[OF this grp] obtain s where "g = 92 # s" by blast
    with i show "isl (int_of_str B g)" by simp
  qed
  from map_err_all_fail[OF this ns] show ?thesis by simp
qed

text \<open>Whatever the text, \<open>extract_max_rows\<close> returns no number: a group that matches
  starts with a backslash, which \<^verbatim>\<open>int()\<close> rejects.\<close>

lemma extract_max_rows_never_a_number:
  assumes "\<forall>s. isl (int_of_str B (92 # s))"
  shows "extract_max_rows B text \<noteq> Inr (Some n)"
proof
  assume a: "extract_max_rows B text = Inr (Some n)"
  then have ne: "text \<noteq> []"
    by (auto simp: extract_max_rows_def)
  with a obtain n1 n2 where n1: "map_err (int_of_str B) (findall pattern1 text) = Inr n1"
    and n2: "map_err (int_of_str B) (findall pattern2 text) = Inr n2"
    and r: "n1 @ n2 \<noteq> []"
    by (auto simp: extract_max_rows_def pbind_def Let_def split: sum.splits if_splits)
  have "n1 = []"
    by (rule numbers_of_pattern[OF assms _ n1]) (simp add: pattern1_def)
  moreover have "n2 = []"
    by (rule numbers_of_pattern[OF assms _ n2]) (simp add: pattern2_def)
  ultimately show False using r by simp
qed

lemma dropWhile_keeps_last:
  "\<not> P x \<Longrightarrow> \<exists>ys. dropWhile P (xs @ [x]) = ys @ [x]"
  by (induction xs) auto

lemma cpy_int_of_str_backslash: "isl (cpy_int_of_str (92 # s))"
proof -
  have n: "\<not> cpy_is_space 92" by (simp add: cpy_is_space_def)
  then have "dropWhile cpy_is_space (92 # s) = 92 # s" by simp
  moreover from dropWhile_keeps_last[of cpy_is_space 92 "rev s"] n obtain ys where
    "dropWhile cpy_is_space (rev s @ [92]) = ys @ [92]" by blast
  ultimately have "cpy_strip (92 # s) = 92 # rev ys"
    by (simp add: cpy_strip_def)
  then show ?thesis
    by (simp add: cpy_int_of_str_def split_sign_def is_digit_def)
qed

lemma extract_max_rows_cpy_never_a_number: "extract_max_rows cpy text \<noteq> Inr (Some n)"
  by (rule extract_max_rows_never_a_number) (simp add: cpy_def cpy_int_of_str_backslash)


section \<open>Properties of the login heuristic\<close>

lemma cookie_loop_quiet:
  assumes "\<forall>c\<in>set cs. \<forall>n. dict_get c (ustr ''name'') (JStr []) = Inr n \<longrightarrow>
             \<not> sublist (ustr ''token'') (str_lower B (py_str B n))
             \<and> \<not> sublist (ustr ''session'') (str_lower B (py_str B n))
             \<and> \<not> sublist (ustr ''auth'') (str_lower B (py_str B n))"
  shows "cookie_loop B cs \<noteq> Inr True"
  using assms
proof (induction cs)
  case Nil
  then show ?case by simp
next
  case (Cons c cs)
  show ?case
  proof (cases "dict_get c (ustr ''name'') (JStr [])")
    case (Inl e)
    then show ?thesis by simp
  next
    case (Inr n)
    with Cons show ?thesis by (simp add: Let_def)
  qed
qed

text \<open>
  Claim C9, amended. On a page whose URL is read and contains \<^verbatim>\<open>login\<close>, the heuristic
  returns false, and raises nothing, when reading the local storage raises or finds no
  key containing \<^verbatim>\<open>token\<close> or \<^verbatim>\<open>auth\<close>, and reading the cookies raises (at once or at
  some cookie) or finds no name containing \<^verbatim>\<open>token\<close>, \<^verbatim>\<open>session\<close> or \<^verbatim>\<open>auth\<close>. An error
  while reading the URL is caught as well, but the URL is then taken to be empty (see the
  counterexample below).
\<close>

theorem looks_logged_in_swallows_errors:
  assumes url: "page_url p = Inr u" "sublist (ustr ''login'') u"
    and storage: "isl (local_storage p)
       \<or> (\<exists>kvs. local_storage p = Inr (JObj kvs)
             \<and> (\<forall>k\<in>set (map fst kvs). \<not> sublist (ustr ''token'') (str_lower B k)
                                       \<and> \<not> sublist (ustr ''auth'') (str_lower B k)))"
    and cookies: "isl (cookies p)
       \<or> (\<exists>cs. cookies p = Inr (JList cs)
             \<and> (\<forall>c\<in>set cs. \<forall>n. dict_get c (ustr ''name'') (JStr []) = Inr n \<longrightarrow>
                    \<not> sublist (ustr ''token'') (str_lower B (py_str B n))
                    \<and> \<not> sublist (ustr ''session'') (str_lower B (py_str B n))
                    \<and> \<not> sublist (ustr ''auth'') (str_lower B (py_str B n))))"
  shows "\<not> looks_logged_in B p"
proof -
  have s: "storage_block B p \<noteq> Inr True"
  proof (cases "local_storage p")
    case (Inl e)
    then show ?thesis by (simp add: storage_block_def)
  next
    case (Inr v)
    with storage obtain kvs where "v = JObj kvs"
      and "\<forall>k\<in>set (map fst kvs). \<not> sublist (ustr ''token'') (str_lower B k)
                                       \<and> \<not> sublist (ustr ''auth'') (str_lower B k)"
      by auto
    with Inr show ?thesis
      by (simp add: storage_block_def dict_keys_def list_ex_iff)
  qed
  have c: "cookie_block B p \<noteq> Inr True"
  proof (cases "cookies p")
    case (Inl e)
    then show ?thesis by (simp add: cookie_block_def)
  next
    case (Inr v)
    with cookies obtain cs where v: "v = JList cs"
      and q: "\<forall>c\<in>set cs. \<forall>n. dict_get c (ustr ''name'') (JStr []) = Inr n \<longrightarrow>
                    \<not> sublist (ustr ''token'') (str_lower B (py_str B n))
                    \<and> \<not> sublist (ustr ''session'') (str_lower B (py_str B n))
                    \<and> \<not> sublist (ustr ''auth'') (str_lower B (py_str B n))"
      by auto
    from cookie_loop_quiet[OF q] Inr v show ?thesis
      by (simp add: cookie_block_def py_iter_def)
  qed
  from url s c show ?thesis
    by (simp add: looks_logged_in_def)
qed

lemma login_in_url: "sublist (ustr ''login'') login_page_url"
proof -
  have "login_page_url = ustr ''https://tushare.pro/weborder/#/'' @ ustr ''login'' @ []"
    by (simp add: login_page_url_def ustr_def)
  moreover have "sublist (ustr ''login'')
                    (ustr ''https://tushare.pro/weborder/#/'' @ ustr ''login'' @ [])"
    by (rule sublist_appendI)
  ultimately show ?thesis by simp
qed

theorem looks_logged_in_swallows_errors_witness:
  "\<not> looks_logged_in cpy
        \<lparr>page_url = Inr login_page_url, local_storage = Inl OSError, cookies = Inl OSError\<rparr>
   \<and> \<not> looks_logged_in cpy
        \<lparr>page_url = Inr login_page_url,
         local_storage = Inr (JObj [(ustr ''theme'', JStr (ustr ''dark''))]),
         cookies = Inl OSError\<rparr>
   \<and> \<not> looks_logged_in cpy
        \<lparr>page_url = Inr login_page_url,
         local_storage = Inl OSError,
         cookies = Inr (JList [JObj [(ustr ''name'', JStr (ustr ''lang''))], JInt 5])\<rparr>"
proof (intro conjI)
  note t = looks_logged_in_swallows_errors[where u = login_page_url and B = cpy, OF _ login_in_url]
  show "\<not> looks_logged_in cpy
        \<lparr>page_url = Inr login_page_url, local_storage = Inl OSError, cookies = Inl OSError\<rparr>"
    by (rule t) simp_all
  show "\<not> looks_logged_in cpy
        \<lparr>page_url = Inr login_page_url,
         local_storage = Inr (JObj [(ustr ''theme'', JStr (ustr ''dark''))]),
         cookies = Inl OSError\<rparr>"
    by (rule t) (simp_all add: ustr_def cpy_lower_def sublist_code(3))
  show "\<not> looks_logged_in cpy
        \<lparr>page_url = Inr login_page_url,
         local_storage = Inl OSError,
         cookies = Inr (JList [JObj [(ustr ''name'', JStr (ustr ''lang''))], JInt 5])\<rparr>"
    by (rule t) (simp_all add: dict_get_def py_str_def ustr_def cpy_lower_def sublist_code(3))
qed

theorem looks_logged_in_url_error_counterexample:
  "looks_logged_in cpy
     \<lparr>page_url = Inl OSError, local_storage = Inr (JObj []), cookies = Inr (JList [])\<rparr>"
  by (simp add: looks_logged_in_def ustr_def)

end
